theory Spec2Isabelle
  imports Main "HOL-Library.Word"
begin

unbundle bit_operations_syntax

section \<open>The LC-3 virtual machine of lc3\_vm.c\<close>

text \<open>
  The program keeps its state in globals: the array \<open>memory\<close>, the array \<open>reg\<close>, the
  flag \<open>running\<close>, and the two standard streams of the host. The model threads one record
  holding all of them through every function. An array is a function from the index to the
  cell together with its declared size; an access outside the declared size has no meaning
  in C and is the fault \<open>OutOfBounds\<close> of the model.
\<close>

subsection \<open>Constants and state\<close>

type_synonym uint16 = "16 word"
type_synonym byte = "8 word"

definition UINT16_MAX :: nat where
  "UINT16_MAX = 65535"

text \<open>\<open>uint16_t memory[UINT16_MAX]\<close>: the number of cells of the array.\<close>

definition memory_cells :: nat where
  "memory_cells = UINT16_MAX"

definition R_R0 :: nat where "R_R0 = 0"
definition R_R1 :: nat where "R_R1 = 1"
definition R_R2 :: nat where "R_R2 = 2"
definition R_R3 :: nat where "R_R3 = 3"
definition R_R4 :: nat where "R_R4 = 4"
definition R_R5 :: nat where "R_R5 = 5"
definition R_R6 :: nat where "R_R6 = 6"
definition R_R7 :: nat where "R_R7 = 7"
definition R_PC :: nat where "R_PC = 8"
definition R_COND :: nat where "R_COND = 9"
definition R_COUNT :: nat where "R_COUNT = 10"

definition OP_BR :: nat where "OP_BR = 0"
definition OP_ADD :: nat where "OP_ADD = 1"
definition OP_LD :: nat where "OP_LD = 2"
definition OP_ST :: nat where "OP_ST = 3"
definition OP_JSR :: nat where "OP_JSR = 4"
definition OP_AND :: nat where "OP_AND = 5"
definition OP_LDR :: nat where "OP_LDR = 6"
definition OP_STR :: nat where "OP_STR = 7"
definition OP_RTI :: nat where "OP_RTI = 8"
definition OP_NOT :: nat where "OP_NOT = 9"
definition OP_LDI :: nat where "OP_LDI = 10"
definition OP_STI :: nat where "OP_STI = 11"
definition OP_JMP :: nat where "OP_JMP = 12"
definition OP_RES :: nat where "OP_RES = 13"
definition OP_LEA :: nat where "OP_LEA = 14"
definition OP_TRAP :: nat where "OP_TRAP = 15"

definition FL_POS :: uint16 where "FL_POS = push_bit 0 1"
definition FL_ZRO :: uint16 where "FL_ZRO = push_bit 1 1"
definition FL_NEG :: uint16 where "FL_NEG = push_bit 2 1"

definition PC_START :: uint16 where "PC_START = 0x3000"

definition TRAP_GETC :: uint16 where "TRAP_GETC = 0x20"
definition TRAP_OUT :: uint16 where "TRAP_OUT = 0x21"
definition TRAP_PUTS :: uint16 where "TRAP_PUTS = 0x22"
definition TRAP_IN :: uint16 where "TRAP_IN = 0x23"
definition TRAP_PUTSP :: uint16 where "TRAP_PUTSP = 0x24"
definition TRAP_HALT :: uint16 where "TRAP_HALT = 0x25"

definition MR_KBSR :: uint16 where "MR_KBSR = 0xFE00"
definition MR_KBDR :: uint16 where "MR_KBDR = 0xFE02"

text \<open>
  \<open>OutOfBounds\<close>: an access to \<open>memory\<close> at an index that the array does not have.
  \<open>Aborted\<close>: the call of \<open>abort()\<close> on the opcodes RTI and RES.
  \<open>Blocked\<close>: \<open>getchar()\<close> waiting on a keyboard that has no byte to give.
\<close>

datatype fault = OutOfBounds | Aborted | Blocked

text \<open>
  The host is part of the state. The program reaches standard input on two levels: it polls
  descriptor 0 with \<open>select\<close>, and it reads through \<open>getchar\<close>, that is through the
  buffer of the stream \<open>stdin\<close>, which the program never switches off.
  \<^item> \<open>stdin_fd\<close>: the bytes that have arrived on descriptor 0 and that no \<open>read\<close> has
    taken yet;
  \<^item> \<open>stdin_eof\<close>: descriptor 0 is at end of file once \<open>stdin_fd\<close> is used up;
  \<^item> \<open>stdin_buf\<close>: the bytes the stream has taken from the descriptor and \<open>getchar\<close> has
    not returned yet;
  \<^item> \<open>stdout\<close>: the bytes written so far.
\<close>

record vm =
  memory :: "nat \<Rightarrow> uint16"
  reg :: "nat \<Rightarrow> uint16"
  running :: bool
  stdin_fd :: "byte list"
  stdin_eof :: bool
  stdin_buf :: "byte list"
  stdout :: "byte list"

subsection \<open>The host: keyboard and screen\<close>

text \<open>
  \<open>select(1, {descriptor 0}, NULL, NULL, {0, 0})\<close>: the number of descriptors on which a
  \<open>read\<close> would not wait. Descriptor 0 is ready when a byte is waiting on it and also when
  it is at end of file; what the stream already holds in its buffer is invisible to
  \<open>select\<close>. With the zero timeout the call returns 0 otherwise. (An error return of
  \<open>select\<close> is not modelled.) \<open>check_key\<close> is the source's test of that number against 0.
\<close>

definition select_stdin :: "vm \<Rightarrow> int" where
  "select_stdin s = (if stdin_fd s \<noteq> [] \<or> stdin_eof s then 1 else 0)"

definition check_key :: "vm \<Rightarrow> bool" where
  "check_key s = (select_stdin s \<noteq> 0)"

definition EOF :: int where
  "EOF = - 1"

text \<open>The size of the buffer the C library gives the stream \<open>stdin\<close>.\<close>

definition stdin_buffer_size :: nat where
  "stdin_buffer_size = 1024"

text \<open>
  \<open>getchar()\<close> returns the next byte of the stream as an \<open>int\<close> in 0..255. It serves the
  byte from the buffer when the buffer holds one. Otherwise it refills the buffer with one
  \<open>read\<close> on descriptor 0, which hands over every waiting byte up to the size of the buffer;
  at end of file it returns \<open>EOF\<close>; with nothing waiting it waits, which the model reports
  as \<open>None\<close>.
\<close>

definition getchar :: "vm \<Rightarrow> (int \<times> vm) option" where
  "getchar s =
     (case stdin_buf s of
        b # bs \<Rightarrow> Some (uint b, s\<lparr>stdin_buf := bs\<rparr>)
      | [] \<Rightarrow>
          (case take stdin_buffer_size (stdin_fd s) of
             b # bs \<Rightarrow>
               Some (uint b, s\<lparr>stdin_fd := drop stdin_buffer_size (stdin_fd s),
                                stdin_buf := bs\<rparr>)
           | [] \<Rightarrow> if stdin_eof s then Some (EOF, s) else None))"

definition putc :: "byte \<Rightarrow> vm \<Rightarrow> vm" where
  "putc c s = s\<lparr>stdout := stdout s @ [c]\<rparr>"

definition put_string :: "string \<Rightarrow> vm \<Rightarrow> vm" where
  "put_string cs s = s\<lparr>stdout := stdout s @ map (\<lambda>c. of_nat (of_char c)) cs\<rparr>"

subsection \<open>Memory access\<close>

definition mem_write :: "uint16 \<Rightarrow> uint16 \<Rightarrow> vm \<Rightarrow> fault + vm" where
  "mem_write address val s =
     (if unat address < memory_cells
      then Inr (s\<lparr>memory := (memory s)(unat address := val)\<rparr>)
      else Inl OutOfBounds)"

definition mem_read :: "uint16 \<Rightarrow> vm \<Rightarrow> fault + (uint16 \<times> vm)" where
  "mem_read address s =
     (case (if address = MR_KBSR
            then (if check_key s
                  then (case getchar (s\<lparr>memory := (memory s)(unat MR_KBSR := push_bit 15 1)\<rparr>) of
                          None \<Rightarrow> Inl Blocked
                        | Some (c, s1) \<Rightarrow>
                            Inr (s1\<lparr>memory := (memory s1)(unat MR_KBDR := word_of_int c)\<rparr>))
                  else Inr (s\<lparr>memory := (memory s)(unat MR_KBSR := 0)\<rparr>))
            else Inr s) of
        Inl e \<Rightarrow> Inl e
      | Inr s2 \<Rightarrow>
          if unat address < memory_cells
          then Inr (memory s2 (unat address), s2)
          else Inl OutOfBounds)"

subsection \<open>Decoding helpers\<close>

definition sign_extend :: "uint16 \<Rightarrow> nat \<Rightarrow> uint16" where
  "sign_extend x bit_count =
     (if drop_bit (bit_count - 1) x AND 0x1 \<noteq> 0
      then x OR push_bit bit_count 0xFFFF
      else x)"

definition update_flags :: "nat \<Rightarrow> vm \<Rightarrow> vm" where
  "update_flags reg_index s =
     (if reg s reg_index = 0
      then s\<lparr>reg := (reg s)(R_COND := FL_ZRO)\<rparr>
      else if drop_bit 15 (reg s reg_index) \<noteq> 0
      then s\<lparr>reg := (reg s)(R_COND := FL_NEG)\<rparr>
      else s\<lparr>reg := (reg s)(R_COND := FL_POS)\<rparr>)"

subsection \<open>Instruction handlers\<close>

definition op_add :: "uint16 \<Rightarrow> vm \<Rightarrow> vm" where
  "op_add instr s =
     (let dst_reg = unat (drop_bit 9 instr AND 0x7);
          src_reg1 = unat (drop_bit 6 instr AND 0x7);
          imm5_flag = (drop_bit 5 instr AND 0x1 \<noteq> 0)
      in update_flags dst_reg
           (if imm5_flag
            then (let imm5 = sign_extend (instr AND 0x1F) 5
                  in s\<lparr>reg := (reg s)(dst_reg := reg s src_reg1 + imm5)\<rparr>)
            else (let src_reg2 = unat (instr AND 0x7)
                  in s\<lparr>reg := (reg s)(dst_reg := reg s src_reg1 + reg s src_reg2)\<rparr>)))"

definition op_and :: "uint16 \<Rightarrow> vm \<Rightarrow> vm" where
  "op_and instr s =
     (let dst_reg = unat (drop_bit 9 instr AND 0x7);
          src_reg1 = unat (drop_bit 6 instr AND 0x7);
          imm5_flag = (drop_bit 5 instr AND 0x1 \<noteq> 0)
      in update_flags dst_reg
           (if imm5_flag
            then (let imm5 = sign_extend (instr AND 0x1F) 5
                  in s\<lparr>reg := (reg s)(dst_reg := reg s src_reg1 AND imm5)\<rparr>)
            else (let src_reg2 = unat (instr AND 0x7)
                  in s\<lparr>reg := (reg s)(dst_reg := reg s src_reg1 AND reg s src_reg2)\<rparr>)))"

definition op_not :: "uint16 \<Rightarrow> vm \<Rightarrow> vm" where
  "op_not instr s =
     (let dst_reg = unat (drop_bit 9 instr AND 0x7);
          src_reg = unat (drop_bit 6 instr AND 0x7)
      in update_flags dst_reg (s\<lparr>reg := (reg s)(dst_reg := NOT (reg s src_reg))\<rparr>))"

definition op_br :: "uint16 \<Rightarrow> vm \<Rightarrow> vm" where
  "op_br instr s =
     (let pc_offset9 = sign_extend (instr AND 0x1FF) 9;
          cond_flag = drop_bit 9 instr AND 0x7
      in if cond_flag AND reg s R_COND \<noteq> 0
         then s\<lparr>reg := (reg s)(R_PC := reg s R_PC + pc_offset9)\<rparr>
         else s)"

definition op_jmp :: "uint16 \<Rightarrow> vm \<Rightarrow> vm" where
  "op_jmp instr s =
     (let base_reg = unat (drop_bit 6 instr AND 0x7)
      in s\<lparr>reg := (reg s)(R_PC := reg s base_reg)\<rparr>)"

definition op_jsr :: "uint16 \<Rightarrow> vm \<Rightarrow> vm" where
  "op_jsr instr s =
     (let long_flag = drop_bit 11 instr AND 0x1;
          s1 = s\<lparr>reg := (reg s)(R_R7 := reg s R_PC)\<rparr>
      in if long_flag \<noteq> 0
         then (let pc_offset11 = sign_extend (instr AND 0x7FF) 11
               in s1\<lparr>reg := (reg s1)(R_PC := reg s1 R_PC + pc_offset11)\<rparr>)
         else (let base_reg = unat (drop_bit 6 instr AND 0x7)
               in s1\<lparr>reg := (reg s1)(R_PC := reg s1 base_reg)\<rparr>))"

definition op_ld :: "uint16 \<Rightarrow> vm \<Rightarrow> fault + vm" where
  "op_ld instr s =
     (let dst_reg = unat (drop_bit 9 instr AND 0x7);
          pc_offset9 = sign_extend (instr AND 0x1FF) 9
      in case mem_read (reg s R_PC + pc_offset9) s of
           Inl e \<Rightarrow> Inl e
         | Inr (v, s1) \<Rightarrow> Inr (update_flags dst_reg (s1\<lparr>reg := (reg s1)(dst_reg := v)\<rparr>)))"

definition op_ldi :: "uint16 \<Rightarrow> vm \<Rightarrow> fault + vm" where
  "op_ldi instr s =
     (let dst_reg = unat (drop_bit 9 instr AND 0x7);
          pc_offset9 = sign_extend (instr AND 0x1FF) 9
      in case mem_read (reg s R_PC + pc_offset9) s of
           Inl e \<Rightarrow> Inl e
         | Inr (address, s1) \<Rightarrow>
             (case mem_read address s1 of
                Inl e \<Rightarrow> Inl e
              | Inr (v, s2) \<Rightarrow>
                  Inr (update_flags dst_reg (s2\<lparr>reg := (reg s2)(dst_reg := v)\<rparr>))))"

definition op_ldr :: "uint16 \<Rightarrow> vm \<Rightarrow> fault + vm" where
  "op_ldr instr s =
     (let dst_reg = unat (drop_bit 9 instr AND 0x7);
          base_reg = unat (drop_bit 6 instr AND 0x7);
          pc_offset6 = sign_extend (instr AND 0x3F) 6
      in case mem_read (reg s base_reg + pc_offset6) s of
           Inl e \<Rightarrow> Inl e
         | Inr (v, s1) \<Rightarrow> Inr (update_flags dst_reg (s1\<lparr>reg := (reg s1)(dst_reg := v)\<rparr>)))"

definition op_lea :: "uint16 \<Rightarrow> vm \<Rightarrow> vm" where
  "op_lea instr s =
     (let dst_reg = unat (drop_bit 9 instr AND 0x7);
          pc_offset9 = sign_extend (instr AND 0x1FF) 9
      in update_flags dst_reg (s\<lparr>reg := (reg s)(dst_reg := reg s R_PC + pc_offset9)\<rparr>))"

definition op_st :: "uint16 \<Rightarrow> vm \<Rightarrow> fault + vm" where
  "op_st instr s =
     (let src_reg = unat (drop_bit 9 instr AND 0x7);
          pc_offset9 = sign_extend (instr AND 0x1FF) 9;
          address = reg s R_PC + pc_offset9
      in mem_write address (reg s src_reg) s)"

definition op_sti :: "uint16 \<Rightarrow> vm \<Rightarrow> fault + vm" where
  "op_sti instr s =
     (let src_reg = unat (drop_bit 9 instr AND 0x7);
          pc_offset9 = sign_extend (instr AND 0x1FF) 9
      in case mem_read (reg s R_PC + pc_offset9) s of
           Inl e \<Rightarrow> Inl e
         | Inr (address, s1) \<Rightarrow> mem_write address (reg s1 src_reg) s1)"

definition op_str :: "uint16 \<Rightarrow> vm \<Rightarrow> fault + vm" where
  "op_str instr s =
     (let src_reg = unat (drop_bit 9 instr AND 0x7);
          base_reg = unat (drop_bit 6 instr AND 0x7);
          pc_offset6 = sign_extend (instr AND 0x3F) 6;
          address = reg s base_reg + pc_offset6
      in mem_write address (reg s src_reg) s)"

subsection \<open>Trap routines\<close>

definition trap_getc :: "vm \<Rightarrow> fault + vm" where
  "trap_getc s =
     (case getchar s of
        None \<Rightarrow> Inl Blocked
      | Some (c, s1) \<Rightarrow> Inr (s1\<lparr>reg := (reg s1)(R_R0 := word_of_int c)\<rparr>))"

definition trap_out :: "vm \<Rightarrow> vm" where
  "trap_out s = putc (ucast (reg s R_R0)) s"

text \<open>
  The loop of \<open>trap_puts\<close>. \<open>ptr_c\<close> is the index of the cell the C pointer points to; the
  pointer is not a 16-bit value and does not wrap, so it can walk off the end of the array.
\<close>

function puts_loop :: "nat \<Rightarrow> vm \<Rightarrow> fault + vm" where
  "puts_loop ptr_c s =
     (if memory_cells \<le> ptr_c then Inl OutOfBounds
      else if memory s ptr_c \<noteq> 0
      then puts_loop (ptr_c + 1) (putc (ucast (memory s ptr_c)) s)
      else Inr s)"
  by pat_completeness auto
termination
  by (relation "measure (\<lambda>(ptr_c, s). memory_cells - ptr_c)") auto

declare puts_loop.simps [simp del]

definition trap_puts :: "vm \<Rightarrow> fault + vm" where
  "trap_puts s = puts_loop (unat (reg s R_R0)) s"

text \<open>\<open>char\<close> is the signed 8-bit type of the host, so \<open>(uint16_t)ch\<close> sign-extends.\<close>

definition trap_in :: "vm \<Rightarrow> fault + vm" where
  "trap_in s =
     (case getchar (put_string (''Enter a character:'' @ [CHR 0x0A]) s) of
        None \<Rightarrow> Inl Blocked
      | Some (c, s1) \<Rightarrow>
          (let ch = (word_of_int c :: byte);
               s2 = putc ch s1
           in Inr (s2\<lparr>reg := (reg s2)(R_R0 := scast ch)\<rparr>)))"

function putsp_loop :: "nat \<Rightarrow> vm \<Rightarrow> fault + vm" where
  "putsp_loop ptr_c s =
     (if memory_cells \<le> ptr_c then Inl OutOfBounds
      else if memory s ptr_c \<noteq> 0
      then (let ch1 = (ucast (memory s ptr_c AND 0xFF) :: byte);
                s1 = putc ch1 s;
                ch2 = (ucast (drop_bit 8 (memory s ptr_c)) :: byte);
                s2 = (if ch2 \<noteq> 0 then putc ch2 s1 else s1)
            in putsp_loop (ptr_c + 1) s2)
      else Inr s)"
  by pat_completeness auto
termination
  by (relation "measure (\<lambda>(ptr_c, s). memory_cells - ptr_c)") auto

declare putsp_loop.simps [simp del]

definition trap_putsp :: "vm \<Rightarrow> fault + vm" where
  "trap_putsp s = putsp_loop (unat (reg s R_R0)) s"

definition trap_halt :: "vm \<Rightarrow> vm" where
  "trap_halt s = (put_string (''HATL'' @ [CHR 0x0A]) s)\<lparr>running := False\<rparr>"

definition op_trap :: "uint16 \<Rightarrow> vm \<Rightarrow> fault + vm" where
  "op_trap instr s =
     (let vect = instr AND 0xFF
      in if vect = TRAP_GETC then trap_getc s
         else if vect = TRAP_OUT then Inr (trap_out s)
         else if vect = TRAP_PUTS then trap_puts s
         else if vect = TRAP_IN then trap_in s
         else if vect = TRAP_PUTSP then trap_putsp s
         else if vect = TRAP_HALT then Inr (trap_halt s)
         else Inr s)"

subsection \<open>The fetch and execute loop of \<open>main\<close>\<close>

text \<open>The \<open>switch (op)\<close> of the loop body.\<close>

definition execute :: "uint16 \<Rightarrow> vm \<Rightarrow> fault + vm" where
  "execute instr s =
     (let op = unat (drop_bit 12 instr)
      in if op = OP_ADD then Inr (op_add instr s)
         else if op = OP_AND then Inr (op_and instr s)
         else if op = OP_NOT then Inr (op_not instr s)
         else if op = OP_BR then Inr (op_br instr s)
         else if op = OP_JMP then Inr (op_jmp instr s)
         else if op = OP_JSR then Inr (op_jsr instr s)
         else if op = OP_LD then op_ld instr s
         else if op = OP_LDI then op_ldi instr s
         else if op = OP_LDR then op_ldr instr s
         else if op = OP_LEA then Inr (op_lea instr s)
         else if op = OP_ST then op_st instr s
         else if op = OP_STI then op_sti instr s
         else if op = OP_STR then op_str instr s
         else if op = OP_TRAP then op_trap instr s
         else Inl Aborted)"

text \<open>One turn of the loop: \<open>instr = mem_read(reg[R_PC]++)\<close>, then the switch.\<close>

definition step :: "vm \<Rightarrow> fault + vm" where
  "step s =
     (let pc = reg s R_PC;
          s1 = s\<lparr>reg := (reg s)(R_PC := pc + 1)\<rparr>
      in case mem_read pc s1 of
           Inl e \<Rightarrow> Inl e
         | Inr (instr, s2) \<Rightarrow> execute instr s2)"

text \<open>
  \<open>while (running)\<close>, with a bound on the number of turns: \<open>None\<close> when the bound is
  used up with the machine still running.
\<close>

fun run :: "nat \<Rightarrow> vm \<Rightarrow> (fault + vm) option" where
  "run 0 s = (if running s then None else Some (Inr s))"
| "run (Suc n) s =
     (if running s
      then (case step s of Inl e \<Rightarrow> Some (Inl e) | Inr s' \<Rightarrow> run n s')
      else Some (Inr s))"

subsection \<open>The image loader\<close>

definition swap16 :: "uint16 \<Rightarrow> uint16" where
  "swap16 x = push_bit 8 x OR drop_bit 8 x"

text \<open>Two bytes of the file as \<open>fread\<close> lays them into a \<open>uint16_t\<close> of the little-endian
  host: the first byte is the low one.\<close>

definition host_word :: "byte \<Rightarrow> byte \<Rightarrow> uint16" where
  "host_word b0 b1 = ucast b0 OR push_bit 8 (ucast b1)"

text \<open>
  \<open>fread(p_curr, sizeof (uint16_t), max_read, file)\<close>: copies up to \<open>max_read\<close> items of two
  bytes from the file to the cells from \<open>p_curr\<close> on and returns the number of complete
  items. A single byte left at the end of the file is still copied, into the low byte of the
  next cell, and is not counted.
\<close>

fun fread_words :: "nat \<Rightarrow> nat \<Rightarrow> byte list \<Rightarrow> (nat \<Rightarrow> uint16) \<Rightarrow> nat \<times> (nat \<Rightarrow> uint16)" where
  "fread_words p 0 bs m = (0, m)"
| "fread_words p (Suc n) [] m = (0, m)"
| "fread_words p (Suc n) [b] m = (0, m(p := (m p AND 0xFF00) OR ucast b))"
| "fread_words p (Suc n) (b0 # b1 # bs) m =
     (case fread_words (Suc p) n bs (m(p := host_word b0 b1)) of
        (k, m') \<Rightarrow> (Suc k, m'))"

text \<open>\<open>while (actual_read-- > 0) { *p_curr = swap16(*p_curr); ++p_curr; }\<close>\<close>

fun swap_loop :: "nat \<Rightarrow> nat \<Rightarrow> (nat \<Rightarrow> uint16) \<Rightarrow> (nat \<Rightarrow> uint16)" where
  "swap_loop p_curr 0 m = m"
| "swap_loop p_curr (Suc actual_read) m =
     swap_loop (Suc p_curr) actual_read (m(p_curr := swap16 (m p_curr)))"

text \<open>
  \<open>read_image_file\<close>. A file of fewer than two bytes does not fill \<open>origin\<close>; whatever
  value the variable then has, the file is used up, the second \<open>fread\<close> copies nothing and
  returns 0, the loop body never runs, and the function returns with memory as it was.
\<close>

definition read_image_file :: "byte list \<Rightarrow> vm \<Rightarrow> fault + vm" where
  "read_image_file file s =
     (case file of
        b0 # b1 # rest \<Rightarrow>
          (let origin = swap16 (host_word b0 b1);
               max_read = UINT16_MAX - unat origin;
               p_curr = unat origin
           in case fread_words p_curr max_read rest (memory s) of
                (actual_read, m) \<Rightarrow> Inr (s\<lparr>memory := swap_loop p_curr actual_read m\<rparr>))
      | _ \<Rightarrow> Inr s)"

text \<open>
  The start of \<open>main\<close>: load the image, set PC to \<open>PC_START\<close>, set the running flag. The
  loop \<open>run\<close> follows.
\<close>

definition main_start :: "byte list \<Rightarrow> vm \<Rightarrow> fault + vm" where
  "main_start img s =
     (case read_image_file img s of
        Inl e \<Rightarrow> Inl e
      | Inr s1 \<Rightarrow> Inr (s1\<lparr>reg := (reg s1)(R_PC := PC_START), running := True\<rparr>))"

subsection \<open>The state at program start\<close>

text \<open>The globals have static storage, so they start zeroed; nothing has been typed or
  written yet.\<close>

definition init_vm :: vm where
  "init_vm = \<lparr>memory = (\<lambda>_. 0), reg = (\<lambda>_. 0), running = False,
               stdin_fd = [], stdin_eof = False, stdin_buf = [], stdout = []\<rparr>"

subsection \<open>Concrete machine states\<close>

text \<open>States on which the theorems below are evaluated.\<close>

definition ex_lea :: vm where
  "ex_lea = init_vm\<lparr>reg := (reg init_vm)(R_COND := FL_POS)\<rparr>"

text \<open>PC at \<open>0x3001\<close>, as after the fetch of an instruction at \<open>0x3000\<close>.\<close>

definition ex_lea_back :: vm where
  "ex_lea_back = init_vm\<lparr>reg := (reg init_vm)(R_PC := 0x3001, R_COND := FL_ZRO)\<rparr>"

text \<open>A negative word at \<open>0x3001\<close>, a pointer to it at \<open>0x3002\<close>, and that address in R3.\<close>

definition ex_ld :: vm where
  "ex_ld = init_vm\<lparr>memory := (memory init_vm)(0x3001 := 0x8001, 0x3002 := 0x3001),
                    reg := (reg init_vm)(R_R3 := 0x3002, R_PC := 0x3000)\<rparr>"

text \<open>Two keys typed before the first poll; the state the first poll leaves; and standard
  input at end of file.\<close>

definition ex_key :: vm where
  "ex_key = init_vm\<lparr>stdin_fd := [0x41, 0x42]\<rparr>"

definition ex_key_after :: vm where
  "ex_key_after = init_vm\<lparr>memory := (memory init_vm)(0xFE00 := 0x8000, 0xFE02 := 0x41),
                           stdin_buf := [0x42]\<rparr>"

definition ex_eof :: vm where
  "ex_eof = init_vm\<lparr>stdin_eof := True\<rparr>"

text \<open>JSRR R7 (\<open>0x41C0\<close>) at \<open>0x3000\<close>, with \<open>0x1234\<close> in R7.\<close>

definition ex_jsr :: vm where
  "ex_jsr = init_vm\<lparr>memory := (memory init_vm)(0x3000 := 0x41C0),
                     reg := (reg init_vm)(R_R7 := 0x1234, R_PC := 0x3000)\<rparr>"

text \<open>JSR #-1024 (\<open>0x4C00\<close>) at \<open>0x3000\<close>.\<close>

definition ex_jsr_long :: vm where
  "ex_jsr_long = init_vm\<lparr>memory := (memory init_vm)(0x3000 := 0x4C00),
                          reg := (reg init_vm)(R_PC := 0x3000)\<rparr>"

text \<open>TRAP \<open>0xFF\<close> (\<open>0xF0FF\<close>) at \<open>0x3000\<close>.\<close>

definition ex_trap :: vm where
  "ex_trap = init_vm\<lparr>memory := (memory init_vm)(0x3000 := 0xF0FF),
                      reg := (reg init_vm)(R_PC := 0x3000)\<rparr>"

text \<open>LDI R0, #0 (\<open>0xA000\<close>) at \<open>0x3000\<close>, followed by the pointer \<open>0xFFFF\<close>.\<close>

definition ex_ldi :: vm where
  "ex_ldi = init_vm\<lparr>memory := (memory init_vm)(0x3000 := 0xA000, 0x3001 := 0xFFFF),
                     reg := (reg init_vm)(R_PC := 0x3000)\<rparr>"

text \<open>A string that runs over the keyboard registers, with one key waiting on the
  descriptor and one in the buffer of the stream.\<close>

definition ex_puts :: vm where
  "ex_puts = init_vm\<lparr>memory := (memory init_vm)(0xFDFF := 0x41, 0xFE00 := 0x42,
                                                   0xFE01 := 0x43, 0xFE02 := 0x44),
                      reg := (reg init_vm)(R_R0 := 0xFDFF),
                      stdin_fd := [0x58], stdin_buf := [0x59]\<rparr>"

text \<open>The image of LEA R0, #2; PUTS; HALT followed by the string "hello", and the state
  it loads to.\<close>

definition hello_image :: "byte list" where
  "hello_image = [0x30, 0x00, 0xE0, 0x02, 0xF0, 0x22, 0xF0, 0x25,
                  0x00, 0x68, 0x00, 0x65, 0x00, 0x6C, 0x00, 0x6C, 0x00, 0x6F, 0x00, 0x00]"

definition hello_loaded :: vm where
  "hello_loaded =
     init_vm\<lparr>memory := (memory init_vm)(0x3000 := 0xE002, 0x3001 := 0xF022, 0x3002 := 0xF025,
                                          0x3003 := 0x68, 0x3004 := 0x65, 0x3005 := 0x6C,
                                          0x3006 := 0x6C, 0x3007 := 0x6F, 0x3008 := 0),
             reg := (reg init_vm)(R_PC := 0x3000), running := True\<rparr>"

section \<open>Properties\<close>

lemmas opcodes = OP_BR_def OP_ADD_def OP_LD_def OP_ST_def OP_JSR_def OP_AND_def OP_LDR_def
  OP_STR_def OP_RTI_def OP_NOT_def OP_LDI_def OP_STI_def OP_JMP_def OP_RES_def OP_LEA_def
  OP_TRAP_def

subsection \<open>Sign extension\<close>

text \<open>
  \<open>sign_extend\<close> applied to an \<open>n\<close>-bit field is the two's complement extension of the
  field to 16 bits: every bit from \<open>n - 1\<close> up repeats bit \<open>n - 1\<close>.
\<close>

lemma and_one_neq_zero_iff: "(w AND 1 \<noteq> 0) = bit (w::uint16) 0"
  by (simp add: and_one_eq mod_2_eq_odd bit_0)

lemma sign_extend_mask:
  assumes "0 < n" and "n < 16"
  shows "sign_extend (x AND mask n) n = signed_take_bit (n - 1) x"
proof -
  have top: "(drop_bit (n - 1) (x AND mask n) AND 0x1 \<noteq> 0) = bit x (n - 1)"
    using assms by (auto simp: and_one_neq_zero_iff bit_simps)
  have m1: "(0xFFFF :: uint16) = - 1" by simp
  have se: "sign_extend (x AND mask n) n =
              (if bit x (n - 1) then (x AND mask n) OR push_bit n (- 1) else x AND mask n)"
    unfolding sign_extend_def top m1 by (rule refl)
  show ?thesis
  proof (rule bit_word_eqI)
    fix k assume k: "k < LENGTH(16)"
    consider "k < n - 1" | "k = n - 1" | "n \<le> k" by linarith
    then show "bit (sign_extend (x AND mask n) n) k = bit (signed_take_bit (n - 1) x) k"
    proof cases
      case 1
      with assms k show ?thesis
        unfolding se by (auto simp: bit_simps bit_signed_take_bit_iff min_def)
    next
      case 2
      with assms k show ?thesis
        unfolding se by (auto simp: bit_simps bit_signed_take_bit_iff min_def)
    next
      case 3
      with assms k show ?thesis
        unfolding se by (auto simp: bit_simps bit_signed_take_bit_iff min_def)
    qed
  qed
qed

lemma sign_extend_fields:
  "sign_extend (x AND 0x1F) 5 = signed_take_bit 4 x"
  "sign_extend (x AND 0x3F) 6 = signed_take_bit 5 x"
  "sign_extend (x AND 0x1FF) 9 = signed_take_bit 8 x"
  "sign_extend (x AND 0x7FF) 11 = signed_take_bit 10 x"
  using sign_extend_mask [of 5 x] sign_extend_mask [of 6 x] sign_extend_mask [of 9 x]
    sign_extend_mask [of 11 x]
  by (simp_all add: mask_numeral)

subsection \<open>Register fields and condition flags\<close>

lemma drop_bit_15_iff: "(drop_bit 15 (v::uint16) \<noteq> 0) = bit v 15"
proof
  assume "drop_bit 15 v \<noteq> 0"
  then obtain n where n: "bit (drop_bit 15 v) n"
    by (auto simp: bit_eq_iff)
  then have b: "bit v (15 + n)" by (simp add: bit_simps)
  then have "15 + n < 16" using bit_imp_le_length [of v "15 + n"] by simp
  then have "n = 0" by simp
  with b show "bit v 15" by simp
next
  assume "bit v 15"
  then have "bit (drop_bit 15 v) 0" by (simp add: bit_simps)
  then show "drop_bit 15 v \<noteq> 0" by auto
qed

lemma reg_field_lt: "unat ((w::uint16) AND 0x7) < 8"
proof -
  have "unat (w AND 0x7) \<le> unat (0x7 :: uint16)"
    by (rule word_and_le1 [THEN word_le_nat_alt [THEN iffD1]])
  then show ?thesis by simp
qed

text \<open>A three-bit register field never selects \<open>PC\<close> or \<open>COND\<close>, and stays inside \<open>reg\<close>.\<close>

lemma reg_field_neq:
  "unat ((w::uint16) AND 0x7) \<noteq> R_COND" "unat ((w::uint16) AND 0x7) \<noteq> R_PC"
  using reg_field_lt [of w] by (simp_all add: R_COND_def R_PC_def)

lemma reg_field_in_range: "unat ((w::uint16) AND 0x7) < R_COUNT"
  using reg_field_lt [of w] by (simp add: R_COUNT_def)

lemma update_flags_cond:
  "reg (update_flags r s) R_COND =
     (if reg s r = 0 then FL_ZRO else if bit (reg s r) 15 then FL_NEG else FL_POS)"
  by (simp add: update_flags_def drop_bit_15_iff)

lemma update_flags_other:
  "r \<noteq> R_COND \<Longrightarrow> reg (update_flags k s) r = reg s r"
  by (simp add: update_flags_def)

lemma update_flags_frame:
  "memory (update_flags k s) = memory s" "running (update_flags k s) = running s"
  "stdin_fd (update_flags k s) = stdin_fd s" "stdin_buf (update_flags k s) = stdin_buf s"
  "stdin_eof (update_flags k s) = stdin_eof s" "stdout (update_flags k s) = stdout s"
  by (simp_all add: update_flags_def)

lemma flags_distinct:
  "FL_POS \<noteq> FL_ZRO" "FL_POS \<noteq> FL_NEG" "FL_ZRO \<noteq> FL_NEG"
  "FL_ZRO \<noteq> FL_POS" "FL_NEG \<noteq> FL_POS" "FL_NEG \<noteq> FL_ZRO"
  by (simp_all add: FL_POS_def FL_ZRO_def FL_NEG_def)

lemma bit15_nonzero: "bit (v::uint16) 15 \<Longrightarrow> v \<noteq> 0"
  by auto

lemma update_flags_one_hot:
  assumes "r \<noteq> R_COND" and "s' = update_flags r s0"
  shows "(reg s' R_COND = FL_NEG \<longleftrightarrow> bit (reg s' r) 15)
       \<and> (reg s' R_COND = FL_ZRO \<longleftrightarrow> reg s' r = 0)
       \<and> (reg s' R_COND = FL_POS \<longleftrightarrow> reg s' r \<noteq> 0 \<and> \<not> bit (reg s' r) 15)
       \<and> reg s' R_COND \<in> {FL_NEG, FL_ZRO, FL_POS}"
  using assms bit15_nonzero [of "reg s0 r"]
  by (auto simp: update_flags_cond update_flags_other flags_distinct)

text \<open>Each of the six handlers ends in \<open>update_flags\<close> on its destination register.\<close>

lemma flag_setting_shape:
  assumes "unat (drop_bit 12 instr) \<in> {OP_ADD, OP_AND, OP_NOT, OP_LD, OP_LDI, OP_LDR}"
    and "execute instr s = Inr s'"
  shows "\<exists>s0. s' = update_flags (unat (drop_bit 9 instr AND 0x7)) s0"
  using assms
  by (auto simp: execute_def Let_def OP_ADD_def OP_AND_def OP_NOT_def OP_LD_def OP_LDI_def
      OP_LDR_def OP_BR_def OP_JMP_def OP_JSR_def op_add_def op_and_def op_not_def op_ld_def
      op_ldi_def op_ldr_def
      split: sum.splits prod.splits if_splits)

text \<open>ADD, AND and NOT touch no memory and always return.\<close>

lemma alu_always_returns:
  assumes "unat (drop_bit 12 instr) \<in> {OP_ADD, OP_AND, OP_NOT}"
  shows "\<exists>s'. execute instr s = Inr s'"
  using assms by (auto simp: execute_def opcodes)

subsection \<open>LEA\<close>

text \<open>
  C1, as the specification states it: LEA writes \<open>PC + signext(PCoffset9, 9)\<close> to DR and
  leaves COND as it was. The handler \<open>op_lea\<close> ends in \<open>update_flags(dst_reg)\<close>, so the
  second half fails: LEA R0, #0 at PC = 0 with COND = POS loads 0 and leaves COND = ZRO.
\<close>

theorem op_lea_cond_counterexample:
  "reg (op_lea 0xE000 ex_lea) R_COND \<noteq> reg ex_lea R_COND"
  by (simp add: op_lea_def ex_lea_def init_vm_def update_flags_def sign_extend_def
      R_COND_def R_PC_def FL_POS_def FL_ZRO_def)

text \<open>
  C1, amended: for every machine state and every LEA instruction word, after the handler
  runs, DR holds \<open>PC + signext(PCoffset9, 9)\<close> and COND holds the flag of that value: ZRO
  when it is 0, NEG when its bit 15 is set, POS otherwise. The offset is written without
  the handler's own helper: \<open>signed_take_bit 8 instr\<close> is the word that has bits 0 to 8 of
  the instruction and repeats bit 8 in bits 9 to 15.
\<close>

theorem op_lea_sets_flags:
  "reg (op_lea instr s) (unat (drop_bit 9 instr AND 0x7))
     = reg s R_PC + signed_take_bit 8 instr
   \<and> reg (op_lea instr s) R_COND =
       (if reg s R_PC + signed_take_bit 8 instr = 0 then FL_ZRO
        else if bit (reg s R_PC + signed_take_bit 8 instr) 15 then FL_NEG
        else FL_POS)"
  by (simp add: op_lea_def Let_def update_flags_cond update_flags_other reg_field_neq
      sign_extend_fields)

text \<open>LEA R0, #-2 with PC = \<open>0x3001\<close>; LEA R1, #-1 and LEA R0, #0 with PC = 0.\<close>

theorem op_lea_sets_flags_witness:
  "reg (op_lea 0xE1FE ex_lea_back) 0 = 0x2FFF
   \<and> reg (op_lea 0xE1FE ex_lea_back) R_COND = FL_POS
   \<and> reg (op_lea 0xE3FF ex_lea) 1 = 0xFFFF
   \<and> reg (op_lea 0xE3FF ex_lea) R_COND = FL_NEG
   \<and> reg (op_lea 0xE000 ex_lea) 0 = 0
   \<and> reg (op_lea 0xE000 ex_lea) R_COND = FL_ZRO"
proof -
  have off: "signed_take_bit 8 (0xE1FE :: uint16) = 0xFFFE"
    "signed_take_bit 8 (0xE3FF :: uint16) = 0xFFFF"
    "signed_take_bit 8 (0xE000 :: uint16) = 0"
    by (simp_all add: sign_extend_fields(3) [symmetric] sign_extend_def)
  have pc: "reg ex_lea_back R_PC = 0x3001" "reg ex_lea R_PC = 0"
    by (simp_all add: ex_lea_back_def ex_lea_def init_vm_def R_PC_def R_COND_def)
  from op_lea_sets_flags [of "0xE1FE" ex_lea_back] op_lea_sets_flags [of "0xE3FF" ex_lea]
    op_lea_sets_flags [of "0xE000" ex_lea]
  show ?thesis by (simp add: off pc)
qed

subsection \<open>Memory and the keyboard registers\<close>

lemma mem_read_plain:
  assumes "address \<noteq> MR_KBSR"
  shows "mem_read address s =
           (if unat address < memory_cells then Inr (memory s (unat address), s)
            else Inl OutOfBounds)"
  using assms by (simp add: mem_read_def)

lemma kbsr_in_bounds: "unat MR_KBSR < memory_cells" "unat MR_KBDR < memory_cells"
  by (simp_all add: MR_KBSR_def MR_KBDR_def memory_cells_def UINT16_MAX_def)

text \<open>\<open>getchar\<close> returns whenever \<open>select\<close> has reported the descriptor ready, and it only
  touches the input side of the state.\<close>

lemma getchar_frame:
  assumes "getchar s = Some (c, s1)"
  shows "memory s1 = memory s \<and> reg s1 = reg s \<and> running s1 = running s
         \<and> stdout s1 = stdout s"
  using assms by (auto simp: getchar_def split: list.splits if_splits)

lemma getchar_ready:
  assumes "stdin_fd s \<noteq> [] \<or> stdin_eof s"
  shows "\<exists>c s1. getchar s = Some (c, s1)"
proof (cases "stdin_buf s")
  case (Cons b bs)
  then show ?thesis by (simp add: getchar_def)
next
  case Nil
  show ?thesis
  proof (cases "stdin_fd s")
    case fd: Nil
    with assms Nil show ?thesis by (simp add: getchar_def)
  next
    case fd: (Cons b bs)
    then have "take stdin_buffer_size (stdin_fd s) = b # take (stdin_buffer_size - 1) bs"
      by (simp add: stdin_buffer_size_def)
    with Nil show ?thesis by (simp add: getchar_def)
  qed
qed

lemma mem_read_kbsr_idle:
  assumes "\<not> check_key s"
  shows "mem_read MR_KBSR s = Inr (0, s\<lparr>memory := (memory s)(unat MR_KBSR := 0)\<rparr>)"
  using assms kbsr_in_bounds by (simp add: mem_read_def)

lemma mem_read_kbsr_ready:
  assumes "check_key s"
  shows "\<exists>c s1. getchar (s\<lparr>memory := (memory s)(unat MR_KBSR := 0x8000)\<rparr>) = Some (c, s1)
           \<and> mem_read MR_KBSR s
               = Inr (0x8000, s1\<lparr>memory := (memory s)(unat MR_KBSR := 0x8000,
                                                         unat MR_KBDR := word_of_int c)\<rparr>)"
proof -
  let ?s0 = "s\<lparr>memory := (memory s)(unat MR_KBSR := 0x8000)\<rparr>"
  from assms have "stdin_fd ?s0 \<noteq> [] \<or> stdin_eof ?s0"
    by (simp add: check_key_def select_stdin_def split: if_splits)
  then obtain c s1 where g: "getchar ?s0 = Some (c, s1)"
    using getchar_ready by blast
  from getchar_frame [OF g] have m: "memory s1 = (memory s)(unat MR_KBSR := 0x8000)"
    by simp
  have d: "unat MR_KBSR \<noteq> unat MR_KBDR" by (simp add: MR_KBSR_def MR_KBDR_def)
  have "mem_read MR_KBSR s
          = Inr (0x8000, s1\<lparr>memory := (memory s)(unat MR_KBSR := 0x8000,
                                                    unat MR_KBDR := word_of_int c)\<rparr>)"
    using assms g m d kbsr_in_bounds by (simp add: mem_read_def)
  with g show ?thesis by blast
qed

text \<open>A read never touches the registers, the running flag or the screen.\<close>

lemma mem_read_regs:
  assumes "mem_read address s = Inr (v, s2)"
  shows "reg s2 = reg s \<and> running s2 = running s \<and> stdout s2 = stdout s"
proof (cases "address = MR_KBSR")
  case False
  with assms show ?thesis by (auto simp: mem_read_plain split: if_splits)
next
  case True
  show ?thesis
  proof (cases "check_key s")
    case False
    with assms True show ?thesis by (auto simp: mem_read_kbsr_idle)
  next
    case ready: True
    from mem_read_kbsr_ready [OF ready] obtain c s1
      where g: "getchar (s\<lparr>memory := (memory s)(unat MR_KBSR := 0x8000)\<rparr>) = Some (c, s1)"
        and r: "mem_read MR_KBSR s
                  = Inr (0x8000, s1\<lparr>memory := (memory s)(unat MR_KBSR := 0x8000,
                                                            unat MR_KBDR := word_of_int c)\<rparr>)"
      by blast
    from getchar_frame [OF g] assms True r show ?thesis by auto
  qed
qed

lemma mem_read_kbsr_value:
  assumes "mem_read MR_KBSR s = Inr (v, s2)"
  shows "v = 0 \<or> v = 0x8000"
proof (cases "check_key s")
  case False
  with assms show ?thesis by (auto simp: mem_read_kbsr_idle)
next
  case True
  from mem_read_kbsr_ready [OF True] assms show ?thesis by auto
qed

text \<open>
  A word fetched from KBSR is 0 (a BR) or \<open>0x8000\<close> (an RTI), so a fetched instruction
  with any other opcode did not come through the keyboard and left the state alone.
\<close>

lemma fetch_opcode_not_device:
  assumes "mem_read address s = Inr (instr, s2)" and "unat (drop_bit 12 instr) \<notin> {0, 8}"
  shows "s2 = s"
proof (cases "address = MR_KBSR")
  case False
  with assms show ?thesis by (auto simp: mem_read_plain split: if_splits)
next
  case True
  with assms(1) have "instr = 0 \<or> instr = 0x8000" using mem_read_kbsr_value by blast
  with assms(2) show ?thesis by auto
qed

text \<open>Every address but the last one is a cell of the array.\<close>

lemma address_in_bounds_iff: "unat (a::uint16) < memory_cells \<longleftrightarrow> a \<noteq> 0xFFFF"
proof -
  have "unat a < 65536" using unsigned_less [of a, where ?'a = nat] by simp
  moreover have "a = 0xFFFF \<longleftrightarrow> unat a = 65535"
    by (simp add: word_unat_eq_iff)
  ultimately show ?thesis by (auto simp: memory_cells_def UINT16_MAX_def)
qed

lemma in_bounds_access_succeeds:
  assumes "a \<noteq> 0xFFFF"
  shows "\<exists>v s'. mem_read a s = Inr (v, s')" and "\<exists>s'. mem_write a w s = Inr s'"
proof -
  from assms have b: "unat a < memory_cells" by (simp add: address_in_bounds_iff)
  show "\<exists>s'. mem_write a w s = Inr s'" using b by (simp add: mem_write_def)
  show "\<exists>v s'. mem_read a s = Inr (v, s')"
  proof (cases "a = MR_KBSR")
    case False
    with b show ?thesis by (simp add: mem_read_plain)
  next
    case True
    show ?thesis
    proof (cases "check_key s")
      case False
      with True show ?thesis by (simp add: mem_read_kbsr_idle)
    next
      case ready: True
      from mem_read_kbsr_ready [OF ready] True show ?thesis by blast
    qed
  qed
qed

text \<open>
  C2: the specification gives memory 65,536 cells, one for every 16-bit address, so that
  every read and write succeeds. The array is declared as \<open>memory[UINT16_MAX]\<close>, which has
  65,535 cells (indices 0 to \<open>0xFFFE\<close>): a read or write at address \<open>0xFFFF\<close> indexes one
  past its end.
\<close>

theorem last_address_outside_memory:
  "memory_cells = 65535
   \<and> mem_read 0xFFFF s = Inl OutOfBounds
   \<and> mem_write 0xFFFF w s = Inl OutOfBounds"
  by (simp add: memory_cells_def UINT16_MAX_def mem_read_def mem_write_def MR_KBSR_def)

text \<open>The fetch of the loop is such an access when PC is \<open>0xFFFF\<close>.\<close>

lemma fetch_at_last_address:
  assumes "reg s R_PC = 0xFFFF"
  shows "step s = Inl OutOfBounds"
  using assms
  by (simp add: step_def Let_def mem_read_def MR_KBSR_def memory_cells_def UINT16_MAX_def)

text \<open>
  Where the keyboard status register does report the keyboard: with nothing held back in
  the buffer of the stream and standard input not at end of file, a read of KBSR returns
  \<open>0x8000\<close> exactly when a byte is waiting, and then stores that byte in KBDR.
\<close>

lemma kbsr_read_unbuffered:
  assumes "stdin_buf s = []" and "\<not> stdin_eof s"
  shows "stdin_fd s = [] \<longrightarrow>
           mem_read MR_KBSR s = Inr (0, s\<lparr>memory := (memory s)(unat MR_KBSR := 0)\<rparr>)"
    and "\<forall>b bs. stdin_fd s = b # bs \<longrightarrow>
           mem_read MR_KBSR s
             = Inr (0x8000, s\<lparr>memory := (memory s)(unat MR_KBSR := 0x8000,
                                                      unat MR_KBDR := ucast b),
                              stdin_fd := drop stdin_buffer_size (b # bs),
                              stdin_buf := take (stdin_buffer_size - 1) bs\<rparr>)"
proof -
  show "stdin_fd s = [] \<longrightarrow>
          mem_read MR_KBSR s = Inr (0, s\<lparr>memory := (memory s)(unat MR_KBSR := 0)\<rparr>)"
    using assms by (simp add: mem_read_kbsr_idle check_key_def select_stdin_def)
  show "\<forall>b bs. stdin_fd s = b # bs \<longrightarrow>
           mem_read MR_KBSR s
             = Inr (0x8000, s\<lparr>memory := (memory s)(unat MR_KBSR := 0x8000,
                                                      unat MR_KBDR := ucast b),
                              stdin_fd := drop stdin_buffer_size (b # bs),
                              stdin_buf := take (stdin_buffer_size - 1) bs\<rparr>)"
  proof (intro allI impI)
    fix b bs assume fd: "stdin_fd s = b # bs"
    have d: "unat MR_KBSR \<noteq> unat MR_KBDR" by (simp add: MR_KBSR_def MR_KBDR_def)
    have t: "take stdin_buffer_size (b # bs) = b # take (stdin_buffer_size - 1) bs"
      by (simp add: stdin_buffer_size_def)
    show "mem_read MR_KBSR s
            = Inr (0x8000, s\<lparr>memory := (memory s)(unat MR_KBSR := 0x8000,
                                                     unat MR_KBDR := ucast b),
                             stdin_fd := drop stdin_buffer_size (b # bs),
                             stdin_buf := take (stdin_buffer_size - 1) bs\<rparr>)"
      using assms fd t kbsr_in_bounds d
      by (simp add: mem_read_def check_key_def select_stdin_def getchar_def)
  qed
qed

text \<open>
  C3: the specification has a read of KBSR return \<open>0x8000\<close> exactly when the host has a
  byte pending, and 0 otherwise. \<open>check_key\<close> asks \<open>select\<close> about descriptor 0, while the
  byte is taken with \<open>getchar\<close>, through the buffer of the stream. With two keys typed
  before the first poll, that poll moves both into the buffer and returns the first; the
  second poll finds the descriptor empty and returns 0 with the second key still pending.
  At end of file the descriptor counts as ready: the poll returns \<open>0x8000\<close> with no byte
  pending and stores \<open>EOF\<close>, as \<open>0xFFFF\<close>, in KBDR.
\<close>

theorem kbsr_read_misses_buffered_byte:
  "mem_read MR_KBSR ex_key = Inr (0x8000, ex_key_after)
   \<and> stdin_buf ex_key_after = [0x42]
   \<and> mem_read MR_KBSR ex_key_after
       = Inr (0, ex_key_after\<lparr>memory := (memory ex_key_after)(unat MR_KBSR := 0)\<rparr>)
   \<and> stdin_fd ex_eof = [] \<and> stdin_buf ex_eof = []
   \<and> mem_read MR_KBSR ex_eof
       = Inr (0x8000, ex_eof\<lparr>memory := (memory ex_eof)(unat MR_KBSR := 0x8000,
                                                         unat MR_KBDR := 0xFFFF)\<rparr>)"
proof -
  have first: "mem_read MR_KBSR ex_key = Inr (0x8000, ex_key_after)"
    by (simp add: mem_read_def check_key_def select_stdin_def getchar_def ex_key_def
        ex_key_after_def init_vm_def stdin_buffer_size_def MR_KBSR_def MR_KBDR_def
        memory_cells_def UINT16_MAX_def)
  have pending: "stdin_buf ex_key_after = [0x42]"
    by (simp add: ex_key_after_def init_vm_def)
  have second: "mem_read MR_KBSR ex_key_after
       = Inr (0, ex_key_after\<lparr>memory := (memory ex_key_after)(unat MR_KBSR := 0)\<rparr>)"
    by (simp add: mem_read_def check_key_def select_stdin_def ex_key_after_def init_vm_def
        MR_KBSR_def memory_cells_def UINT16_MAX_def)
  have none: "stdin_fd ex_eof = []" "stdin_buf ex_eof = []"
    by (simp_all add: ex_eof_def init_vm_def)
  have m1: "(0xFFFF :: uint16) = - 1" by simp
  have eof: "mem_read MR_KBSR ex_eof
       = Inr (0x8000, ex_eof\<lparr>memory := (memory ex_eof)(unat MR_KBSR := 0x8000,
                                                         unat MR_KBDR := 0xFFFF)\<rparr>)"
    by (simp add: m1 mem_read_def check_key_def select_stdin_def getchar_def ex_eof_def
        init_vm_def EOF_def MR_KBSR_def MR_KBDR_def memory_cells_def UINT16_MAX_def)
  from first pending second none eof show ?thesis by (simp only: simp_thms)
qed

text \<open>
  A write followed by a read of the same cell, for an address inside the array: the read
  returns the word written, and the write changes that one cell and nothing else.
\<close>

lemma write_read_round_trip:
  assumes "a \<noteq> MR_KBSR" and "a \<noteq> 0xFFFF"
  shows "mem_write a w s = Inr (s\<lparr>memory := (memory s)(unat a := w)\<rparr>)"
    and "mem_read a (s\<lparr>memory := (memory s)(unat a := w)\<rparr>)
           = Inr (w, s\<lparr>memory := (memory s)(unat a := w)\<rparr>)"
  using assms by (simp_all add: mem_write_def mem_read_plain address_in_bounds_iff)

text \<open>
  C6: the specification promises that write(a, w) followed by read(a) returns w for every
  address a other than KBSR. At a = \<open>0xFFFF\<close> the write indexes past the end of the array
  declared with \<open>UINT16_MAX\<close> cells, so there is no cell to read back.
\<close>

theorem write_read_last_address:
  "(case mem_write 0xFFFF w s of Inl e \<Rightarrow> Inl e | Inr s1 \<Rightarrow> mem_read 0xFFFF s1)
     = Inl OutOfBounds
   \<and> (0xFFFF :: uint16) \<noteq> MR_KBSR"
  by (simp add: mem_write_def memory_cells_def UINT16_MAX_def MR_KBSR_def)

subsection \<open>Condition flags after a flag-setting instruction\<close>

text \<open>The loads return whenever the cells they read exist, with the word read in DR.\<close>

lemma op_ld_returns:
  assumes "mem_read (reg s R_PC + signed_take_bit 8 instr) s = Inr (v, s1)"
  shows "op_ld instr s =
           Inr (update_flags (unat (drop_bit 9 instr AND 0x7))
                  (s1\<lparr>reg := (reg s1)(unat (drop_bit 9 instr AND 0x7) := v)\<rparr>))"
  using assms by (simp add: op_ld_def Let_def sign_extend_fields)

lemma op_ldr_returns:
  assumes "mem_read (reg s (unat (drop_bit 6 instr AND 0x7)) + signed_take_bit 5 instr) s
             = Inr (v, s1)"
  shows "op_ldr instr s =
           Inr (update_flags (unat (drop_bit 9 instr AND 0x7))
                  (s1\<lparr>reg := (reg s1)(unat (drop_bit 9 instr AND 0x7) := v)\<rparr>))"
  using assms by (simp add: op_ldr_def Let_def sign_extend_fields)

lemma op_ldi_returns:
  assumes "mem_read (reg s R_PC + signed_take_bit 8 instr) s = Inr (address, s1)"
    and "mem_read address s1 = Inr (v, s2)"
  shows "op_ldi instr s =
           Inr (update_flags (unat (drop_bit 9 instr AND 0x7))
                  (s2\<lparr>reg := (reg s2)(unat (drop_bit 9 instr AND 0x7) := v)\<rparr>))"
  using assms by (simp add: op_ldi_def Let_def sign_extend_fields)

lemma loaded_register:
  "reg (update_flags (unat (drop_bit 9 (instr :: uint16) AND 0x7))
          (s1\<lparr>reg := (reg s1)(unat (drop_bit 9 instr AND 0x7) := v)\<rparr>))
       (unat (drop_bit 9 instr AND 0x7)) = v"
  by (simp add: update_flags_other reg_field_neq)

text \<open>
  C5: whenever one of ADD, AND, NOT, LD, LDI, LDR has executed, COND is exactly one of the
  three flags and is determined by the final value of the destination register D: NEG iff
  bit 15 of D is set, ZRO iff D is 0, POS otherwise. The statement holds from any state, so
  every later flag-setting instruction re-establishes it. The instructions do execute: ADD,
  AND and NOT always, and a load whenever no address it reads is \<open>0xFFFF\<close>, in which case
  D receives the word read.
\<close>

theorem flag_setting_one_hot:
  assumes "unat (drop_bit 12 instr) \<in> {OP_ADD, OP_AND, OP_NOT, OP_LD, OP_LDI, OP_LDR}"
  shows "(\<forall>s'. execute instr s = Inr s' \<longrightarrow>
            (reg s' R_COND = FL_NEG \<longleftrightarrow> bit (reg s' (unat (drop_bit 9 instr AND 0x7))) 15)
          \<and> (reg s' R_COND = FL_ZRO \<longleftrightarrow> reg s' (unat (drop_bit 9 instr AND 0x7)) = 0)
          \<and> (reg s' R_COND = FL_POS \<longleftrightarrow>
               reg s' (unat (drop_bit 9 instr AND 0x7)) \<noteq> 0
               \<and> \<not> bit (reg s' (unat (drop_bit 9 instr AND 0x7))) 15)
          \<and> reg s' R_COND \<in> {FL_NEG, FL_ZRO, FL_POS})
       \<and> (unat (drop_bit 12 instr) \<in> {OP_ADD, OP_AND, OP_NOT} \<longrightarrow>
            (\<exists>s'. execute instr s = Inr s'))
       \<and> (unat (drop_bit 12 instr) = OP_LD
            \<and> reg s R_PC + signed_take_bit 8 instr \<noteq> 0xFFFF \<longrightarrow>
            (\<exists>v s1 s'. mem_read (reg s R_PC + signed_take_bit 8 instr) s = Inr (v, s1)
                \<and> execute instr s = Inr s'
                \<and> reg s' (unat (drop_bit 9 instr AND 0x7)) = v))
       \<and> (unat (drop_bit 12 instr) = OP_LDR
            \<and> reg s (unat (drop_bit 6 instr AND 0x7)) + signed_take_bit 5 instr \<noteq> 0xFFFF \<longrightarrow>
            (\<exists>v s1 s'. mem_read (reg s (unat (drop_bit 6 instr AND 0x7))
                                  + signed_take_bit 5 instr) s = Inr (v, s1)
                \<and> execute instr s = Inr s'
                \<and> reg s' (unat (drop_bit 9 instr AND 0x7)) = v))
       \<and> (unat (drop_bit 12 instr) = OP_LDI
            \<and> reg s R_PC + signed_take_bit 8 instr \<noteq> 0xFFFF \<longrightarrow>
            (\<exists>address s1. mem_read (reg s R_PC + signed_take_bit 8 instr) s = Inr (address, s1)
                \<and> (address \<noteq> 0xFFFF \<longrightarrow>
                     (\<exists>v s2 s'. mem_read address s1 = Inr (v, s2)
                         \<and> execute instr s = Inr s'
                         \<and> reg s' (unat (drop_bit 9 instr AND 0x7)) = v))))"
proof -
  have flags: "(reg s' R_COND = FL_NEG \<longleftrightarrow> bit (reg s' (unat (drop_bit 9 instr AND 0x7))) 15)
          \<and> (reg s' R_COND = FL_ZRO \<longleftrightarrow> reg s' (unat (drop_bit 9 instr AND 0x7)) = 0)
          \<and> (reg s' R_COND = FL_POS \<longleftrightarrow>
               reg s' (unat (drop_bit 9 instr AND 0x7)) \<noteq> 0
               \<and> \<not> bit (reg s' (unat (drop_bit 9 instr AND 0x7))) 15)
          \<and> reg s' R_COND \<in> {FL_NEG, FL_ZRO, FL_POS}"
    if "execute instr s = Inr s'" for s'
  proof -
    from assms that obtain s0 where "s' = update_flags (unat (drop_bit 9 instr AND 0x7)) s0"
      using flag_setting_shape by blast
    then show ?thesis
      using update_flags_one_hot [OF reg_field_neq(1)] by blast
  qed
  have alu: "\<exists>s'. execute instr s = Inr s'"
    if "unat (drop_bit 12 instr) \<in> {OP_ADD, OP_AND, OP_NOT}"
    using that by (rule alu_always_returns)
  have ld: "\<exists>v s1 s'. mem_read (reg s R_PC + signed_take_bit 8 instr) s = Inr (v, s1)
                \<and> execute instr s = Inr s'
                \<and> reg s' (unat (drop_bit 9 instr AND 0x7)) = v"
    if op: "unat (drop_bit 12 instr) = OP_LD"
      and a: "reg s R_PC + signed_take_bit 8 instr \<noteq> 0xFFFF"
  proof -
    from in_bounds_access_succeeds(1) [OF a] obtain v s1
      where r: "mem_read (reg s R_PC + signed_take_bit 8 instr) s = Inr (v, s1)" by blast
    have "execute instr s = op_ld instr s"
      using op by (simp add: execute_def opcodes)
    with op_ld_returns [OF r] loaded_register r show ?thesis by metis
  qed
  have ldr: "\<exists>v s1 s'. mem_read (reg s (unat (drop_bit 6 instr AND 0x7))
                                  + signed_take_bit 5 instr) s = Inr (v, s1)
                \<and> execute instr s = Inr s'
                \<and> reg s' (unat (drop_bit 9 instr AND 0x7)) = v"
    if op: "unat (drop_bit 12 instr) = OP_LDR"
      and a: "reg s (unat (drop_bit 6 instr AND 0x7)) + signed_take_bit 5 instr \<noteq> 0xFFFF"
  proof -
    from in_bounds_access_succeeds(1) [OF a] obtain v s1
      where r: "mem_read (reg s (unat (drop_bit 6 instr AND 0x7)) + signed_take_bit 5 instr) s
                  = Inr (v, s1)" by blast
    have "execute instr s = op_ldr instr s"
      using op by (simp add: execute_def opcodes)
    with op_ldr_returns [OF r] loaded_register r show ?thesis by metis
  qed
  have ldi: "\<exists>address s1. mem_read (reg s R_PC + signed_take_bit 8 instr) s = Inr (address, s1)
                \<and> (address \<noteq> 0xFFFF \<longrightarrow>
                     (\<exists>v s2 s'. mem_read address s1 = Inr (v, s2)
                         \<and> execute instr s = Inr s'
                         \<and> reg s' (unat (drop_bit 9 instr AND 0x7)) = v))"
    if op: "unat (drop_bit 12 instr) = OP_LDI"
      and a: "reg s R_PC + signed_take_bit 8 instr \<noteq> 0xFFFF"
  proof -
    from in_bounds_access_succeeds(1) [OF a] obtain address s1
      where r1: "mem_read (reg s R_PC + signed_take_bit 8 instr) s = Inr (address, s1)"
      by blast
    have ex: "execute instr s = op_ldi instr s"
      using op by (simp add: execute_def opcodes)
    have "\<exists>v s2 s'. mem_read address s1 = Inr (v, s2)
                         \<and> execute instr s = Inr s'
                         \<and> reg s' (unat (drop_bit 9 instr AND 0x7)) = v"
      if p: "address \<noteq> 0xFFFF"
    proof -
      from in_bounds_access_succeeds(1) [OF p] obtain v s2
        where r2: "mem_read address s1 = Inr (v, s2)" by blast
      from op_ldi_returns [OF r1 r2] ex loaded_register r2 show ?thesis by metis
    qed
    with r1 show ?thesis by blast
  qed
  from flags alu ld ldr ldi show ?thesis by blast
qed

text \<open>
  On the state \<open>ex_ld\<close>: ADD R0, R0, #-1; AND R0, R0, #0; NOT R5, R0; LD R1, #1;
  LDR R2, R3, #-1; LDI R4, #2. The three loads read the negative word at \<open>0x3001\<close>.
\<close>

theorem flag_setting_one_hot_witness:
  "(\<exists>s'. execute 0x103F ex_ld = Inr s' \<and> reg s' 0 = 0xFFFF \<and> reg s' R_COND = FL_NEG)
   \<and> (\<exists>s'. execute 0x5020 ex_ld = Inr s' \<and> reg s' 0 = 0 \<and> reg s' R_COND = FL_ZRO)
   \<and> (\<exists>s'. execute 0x9A3F ex_ld = Inr s' \<and> reg s' 5 = 0xFFFF \<and> reg s' R_COND = FL_NEG)
   \<and> (\<exists>s'. execute 0x2201 ex_ld = Inr s' \<and> reg s' 1 = 0x8001 \<and> reg s' R_COND = FL_NEG)
   \<and> (\<exists>s'. execute 0x64FF ex_ld = Inr s' \<and> reg s' 2 = 0x8001 \<and> reg s' R_COND = FL_NEG)
   \<and> (\<exists>s'. execute 0xA802 ex_ld = Inr s' \<and> reg s' 4 = 0x8001 \<and> reg s' R_COND = FL_NEG)"
proof -
  note defs = ex_ld_def init_vm_def mem_read_def MR_KBSR_def memory_cells_def UINT16_MAX_def
    R_PC_def R_R3_def R_COND_def execute_def opcodes Let_def sign_extend_def update_flags_def
  have neg: "bit (0xFFFF :: uint16) 15" "bit (0x8001 :: uint16) 15" by simp_all
  have add: "\<exists>s'. execute 0x103F ex_ld = Inr s' \<and> reg s' 0 = 0xFFFF \<and> reg s' R_COND = FL_NEG"
  proof -
    have op: "unat (drop_bit 12 (0x103F :: uint16)) \<in> {OP_ADD, OP_AND, OP_NOT, OP_LD, OP_LDI, OP_LDR}"
      and alu: "unat (drop_bit 12 (0x103F :: uint16)) \<in> {OP_ADD, OP_AND, OP_NOT}"
      by (simp_all add: opcodes)
    have d: "unat (drop_bit 9 (0x103F :: uint16) AND 0x7) = 0" by simp
    have v: "reg s' 0 = 0xFFFF" if "execute 0x103F ex_ld = Inr s'" for s'
      using that by (auto simp: defs op_add_def)
    note T = flag_setting_one_hot [OF op, of ex_ld]
    from T [THEN conjunct2, THEN conjunct1] alu obtain s'
      where e: "execute 0x103F ex_ld = Inr s'" by blast
    from T [THEN conjunct1] e
    have "(reg s' R_COND = FL_NEG) = bit (reg s' 0) 15"
      by (simp only: d)
    with v [OF e] neg have "reg s' R_COND = FL_NEG" by simp
    with e v [OF e] show ?thesis by blast
  qed
  have and_zero: "\<exists>s'. execute 0x5020 ex_ld = Inr s' \<and> reg s' 0 = 0 \<and> reg s' R_COND = FL_ZRO"
  proof -
    have op: "unat (drop_bit 12 (0x5020 :: uint16)) \<in> {OP_ADD, OP_AND, OP_NOT, OP_LD, OP_LDI, OP_LDR}"
      and alu: "unat (drop_bit 12 (0x5020 :: uint16)) \<in> {OP_ADD, OP_AND, OP_NOT}"
      by (simp_all add: opcodes)
    have d: "unat (drop_bit 9 (0x5020 :: uint16) AND 0x7) = 0" by simp
    have v: "reg s' 0 = 0" if "execute 0x5020 ex_ld = Inr s'" for s'
      using that by (auto simp: defs op_and_def)
    note T = flag_setting_one_hot [OF op, of ex_ld]
    from T [THEN conjunct2, THEN conjunct1] alu obtain s'
      where e: "execute 0x5020 ex_ld = Inr s'" by blast
    from T [THEN conjunct1] e
    have "(reg s' R_COND = FL_ZRO) = (reg s' 0 = 0)"
      by (simp only: d)
    with v [OF e] neg have "reg s' R_COND = FL_ZRO" by simp
    with e v [OF e] show ?thesis by blast
  qed
  have not: "\<exists>s'. execute 0x9A3F ex_ld = Inr s' \<and> reg s' 5 = 0xFFFF \<and> reg s' R_COND = FL_NEG"
  proof -
    have op: "unat (drop_bit 12 (0x9A3F :: uint16)) \<in> {OP_ADD, OP_AND, OP_NOT, OP_LD, OP_LDI, OP_LDR}"
      and alu: "unat (drop_bit 12 (0x9A3F :: uint16)) \<in> {OP_ADD, OP_AND, OP_NOT}"
      by (simp_all add: opcodes)
    have d: "unat (drop_bit 9 (0x9A3F :: uint16) AND 0x7) = 5" by simp
    have v: "reg s' 5 = 0xFFFF" if "execute 0x9A3F ex_ld = Inr s'" for s'
      using that by (auto simp: defs op_not_def)
    note T = flag_setting_one_hot [OF op, of ex_ld]
    from T [THEN conjunct2, THEN conjunct1] alu obtain s'
      where e: "execute 0x9A3F ex_ld = Inr s'" by blast
    from T [THEN conjunct1] e
    have "(reg s' R_COND = FL_NEG) = bit (reg s' 5) 15"
      by (simp only: d)
    with v [OF e] neg have "reg s' R_COND = FL_NEG" by simp
    with e v [OF e] show ?thesis by blast
  qed
  have ld: "\<exists>s'. execute 0x2201 ex_ld = Inr s' \<and> reg s' 1 = 0x8001 \<and> reg s' R_COND = FL_NEG"
  proof -
    have op: "unat (drop_bit 12 (0x2201 :: uint16)) \<in> {OP_ADD, OP_AND, OP_NOT, OP_LD, OP_LDI, OP_LDR}"
      and this_op: "unat (drop_bit 12 (0x2201 :: uint16)) = OP_LD"
      by (simp_all add: opcodes)
    have d: "unat (drop_bit 9 (0x2201 :: uint16) AND 0x7) = 1" by simp
    have a: "reg ex_ld R_PC + signed_take_bit 8 (0x2201 :: uint16) \<noteq> 0xFFFF"
      by (simp add: sign_extend_fields(3) [symmetric] sign_extend_def ex_ld_def init_vm_def R_PC_def R_R3_def)
    have v: "reg s' 1 = 0x8001" if "execute 0x2201 ex_ld = Inr s'" for s'
      using that by (auto simp: defs op_ld_def)
    note T = flag_setting_one_hot [OF op, of ex_ld]
    from T [THEN conjunct2, THEN conjunct2, THEN conjunct1] this_op a obtain s'
      where e: "execute 0x2201 ex_ld = Inr s'" by blast
    from T [THEN conjunct1] e
    have "(reg s' R_COND = FL_NEG) = bit (reg s' 1) 15"
      by (simp only: d)
    with v [OF e] neg have "reg s' R_COND = FL_NEG" by simp
    with e v [OF e] show ?thesis by blast
  qed
  have ldr: "\<exists>s'. execute 0x64FF ex_ld = Inr s' \<and> reg s' 2 = 0x8001 \<and> reg s' R_COND = FL_NEG"
  proof -
    have op: "unat (drop_bit 12 (0x64FF :: uint16)) \<in> {OP_ADD, OP_AND, OP_NOT, OP_LD, OP_LDI, OP_LDR}"
      and this_op: "unat (drop_bit 12 (0x64FF :: uint16)) = OP_LDR"
      by (simp_all add: opcodes)
    have d: "unat (drop_bit 9 (0x64FF :: uint16) AND 0x7) = 2" by simp
    have a: "reg ex_ld (unat (drop_bit 6 (0x64FF :: uint16) AND 0x7)) + signed_take_bit 5 (0x64FF :: uint16) \<noteq> 0xFFFF"
      by (simp add: sign_extend_fields(2) [symmetric] sign_extend_def ex_ld_def init_vm_def R_PC_def R_R3_def)
    have v: "reg s' 2 = 0x8001" if "execute 0x64FF ex_ld = Inr s'" for s'
      using that by (auto simp: defs op_ldr_def)
    note T = flag_setting_one_hot [OF op, of ex_ld]
    from T [THEN conjunct2, THEN conjunct2, THEN conjunct2, THEN conjunct1] this_op a obtain s'
      where e: "execute 0x64FF ex_ld = Inr s'" by blast
    from T [THEN conjunct1] e
    have "(reg s' R_COND = FL_NEG) = bit (reg s' 2) 15"
      by (simp only: d)
    with v [OF e] neg have "reg s' R_COND = FL_NEG" by simp
    with e v [OF e] show ?thesis by blast
  qed
  have ldi: "\<exists>s'. execute 0xA802 ex_ld = Inr s' \<and> reg s' 4 = 0x8001 \<and> reg s' R_COND = FL_NEG"
  proof -
    have op: "unat (drop_bit 12 (0xA802 :: uint16)) \<in> {OP_ADD, OP_AND, OP_NOT, OP_LD, OP_LDI, OP_LDR}"
      and this_op: "unat (drop_bit 12 (0xA802 :: uint16)) = OP_LDI"
      by (simp_all add: opcodes)
    have d: "unat (drop_bit 9 (0xA802 :: uint16) AND 0x7) = 4" by simp
    have ea: "reg ex_ld R_PC + signed_take_bit 8 (0xA802 :: uint16) = 0x3002"
      by (simp add: sign_extend_fields(3) [symmetric] sign_extend_def ex_ld_def init_vm_def
          R_PC_def R_R3_def)
    have a: "reg ex_ld R_PC + signed_take_bit 8 (0xA802 :: uint16) \<noteq> 0xFFFF"
      by (simp only: ea) simp
    have first: "mem_read 0x3002 ex_ld = Inr (0x3001, ex_ld)"
      by (simp add: ex_ld_def init_vm_def mem_read_def MR_KBSR_def memory_cells_def
          UINT16_MAX_def)
    have v: "reg s' 4 = 0x8001" if "execute 0xA802 ex_ld = Inr s'" for s'
      using that by (auto simp: defs op_ldi_def)
    note T = flag_setting_one_hot [OF op, of ex_ld]
    from T [THEN conjunct2, THEN conjunct2, THEN conjunct2, THEN conjunct2] this_op a
    obtain address s1 where r: "mem_read (reg ex_ld R_PC + signed_take_bit 8 0xA802) ex_ld
                                  = Inr (address, s1)"
      and n: "address \<noteq> 0xFFFF \<longrightarrow>
                (\<exists>v s2 s'. mem_read address s1 = Inr (v, s2)
                    \<and> execute 0xA802 ex_ld = Inr s'
                    \<and> reg s' (unat (drop_bit 9 (0xA802 :: uint16) AND 0x7)) = v)"
      by blast
    from r first have "address = 0x3001" by (simp only: ea) simp
    with n obtain s' where e: "execute 0xA802 ex_ld = Inr s'" by auto
    from T [THEN conjunct1] e
    have "(reg s' R_COND = FL_NEG) = bit (reg s' 4) 15"
      by (simp only: d)
    with v [OF e] neg have "reg s' R_COND = FL_NEG" by simp
    with e v [OF e] show ?thesis by blast
  qed
  from add and_zero not ld ldr ldi show ?thesis by (simp only: simp_thms)
qed

subsection \<open>JSR and JSRR\<close>

text \<open>
  C7: the handler first copies PC to R7 and only then sets PC: to
  \<open>PC + signext(PCoffset11, 11)\<close> in the long form, to the value of BaseR in the register
  form. As R7 is written first, BaseR = R7 reads the value just stored, and PC keeps the
  return address instead of receiving what R7 held before. When the loop has fetched the
  instruction from state \<open>s0\<close>, the PC the handler sees and saves is the incremented one, the
  address of the instruction after the JSR. The offset is written without the handler's own
  helper: \<open>signed_take_bit 10 instr\<close> is the word that has bits 0 to 10 of the instruction
  and repeats bit 10 in bits 11 to 15.
\<close>

theorem op_jsr_link_then_jump:
  "reg (op_jsr instr s) R_R7 = reg s R_PC
   \<and> (drop_bit 11 instr AND 0x1 \<noteq> 0 \<longrightarrow>
        reg (op_jsr instr s) R_PC = reg s R_PC + signed_take_bit 10 instr)
   \<and> (drop_bit 11 instr AND 0x1 = 0 \<longrightarrow>
        reg (op_jsr instr s) R_PC =
          (if unat (drop_bit 6 instr AND 0x7) = R_R7 then reg s R_PC
           else reg s (unat (drop_bit 6 instr AND 0x7))))
   \<and> (\<forall>s0. unat (drop_bit 12 instr) = OP_JSR
             \<and> mem_read (reg s0 R_PC) (s0\<lparr>reg := (reg s0)(R_PC := reg s0 R_PC + 1)\<rparr>)
                 = Inr (instr, s)
         \<longrightarrow> step s0 = Inr (op_jsr instr s) \<and> reg s R_PC = reg s0 R_PC + 1)"
proof -
  have step: "step s0 = Inr (op_jsr instr s) \<and> reg s R_PC = reg s0 R_PC + 1"
    if op: "unat (drop_bit 12 instr) = OP_JSR"
      and f: "mem_read (reg s0 R_PC) (s0\<lparr>reg := (reg s0)(R_PC := reg s0 R_PC + 1)\<rparr>)
                = Inr (instr, s)"
    for s0
  proof -
    have "execute instr s = Inr (op_jsr instr s)"
      using op
      by (simp add: execute_def OP_JSR_def OP_ADD_def OP_AND_def OP_NOT_def OP_BR_def OP_JMP_def)
    moreover have "reg s = (reg s0)(R_PC := reg s0 R_PC + 1)"
      using mem_read_regs [OF f] by simp
    ultimately show ?thesis using f by (simp add: step_def Let_def)
  qed
  have ne: "R_R7 \<noteq> R_PC" by (simp add: R_R7_def R_PC_def)
  then have "reg (op_jsr instr s) R_R7 = reg s R_PC"
    by (simp add: op_jsr_def Let_def)
  moreover have "drop_bit 11 instr AND 0x1 \<noteq> 0 \<longrightarrow>
        reg (op_jsr instr s) R_PC = reg s R_PC + signed_take_bit 10 instr"
    using ne by (simp add: op_jsr_def Let_def sign_extend_fields)
  moreover have "drop_bit 11 instr AND 0x1 = 0 \<longrightarrow>
        reg (op_jsr instr s) R_PC =
          (if unat (drop_bit 6 instr AND 0x7) = R_R7 then reg s R_PC
           else reg s (unat (drop_bit 6 instr AND 0x7)))"
    by (simp add: op_jsr_def Let_def)
  ultimately show ?thesis using step by blast
qed

text \<open>JSRR R7 and JSR #-1024, each fetched from \<open>0x3000\<close>.\<close>

theorem op_jsr_link_then_jump_witness:
  "step ex_jsr = Inr (op_jsr 0x41C0 (ex_jsr\<lparr>reg := (reg ex_jsr)(R_PC := reg ex_jsr R_PC + 1)\<rparr>))
   \<and> reg (op_jsr 0x41C0 (ex_jsr\<lparr>reg := (reg ex_jsr)(R_PC := reg ex_jsr R_PC + 1)\<rparr>)) R_R7 = 0x3001
   \<and> reg (op_jsr 0x41C0 (ex_jsr\<lparr>reg := (reg ex_jsr)(R_PC := reg ex_jsr R_PC + 1)\<rparr>)) R_PC = 0x3001
   \<and> reg ex_jsr R_R7 = 0x1234
   \<and> step ex_jsr_long
       = Inr (op_jsr 0x4C00 (ex_jsr_long\<lparr>reg := (reg ex_jsr_long)(R_PC := reg ex_jsr_long R_PC + 1)\<rparr>))
   \<and> reg (op_jsr 0x4C00 (ex_jsr_long\<lparr>reg := (reg ex_jsr_long)(R_PC := reg ex_jsr_long R_PC + 1)\<rparr>))
         R_R7 = 0x3001
   \<and> reg (op_jsr 0x4C00 (ex_jsr_long\<lparr>reg := (reg ex_jsr_long)(R_PC := reg ex_jsr_long R_PC + 1)\<rparr>))
         R_PC = 0x2C01"
proof -
  let ?s = "ex_jsr\<lparr>reg := (reg ex_jsr)(R_PC := reg ex_jsr R_PC + 1)\<rparr>"
  let ?l = "ex_jsr_long\<lparr>reg := (reg ex_jsr_long)(R_PC := reg ex_jsr_long R_PC + 1)\<rparr>"
  have op: "unat (drop_bit 12 (0x41C0 :: uint16)) = OP_JSR"
    and opl: "unat (drop_bit 12 (0x4C00 :: uint16)) = OP_JSR"
    by (simp_all add: OP_JSR_def)
  have reg_form: "drop_bit 11 (0x41C0 :: uint16) AND 0x1 = 0"
    and base: "unat (drop_bit 6 (0x41C0 :: uint16) AND 0x7) = R_R7"
    and long_form: "drop_bit 11 (0x4C00 :: uint16) AND 0x1 \<noteq> 0"
    by (simp_all add: R_R7_def)
  have off: "signed_take_bit 10 (0x4C00 :: uint16) = 0xFC00"
    by (simp add: sign_extend_fields(4) [symmetric] sign_extend_def)
  have f: "mem_read (reg ex_jsr R_PC) ?s = Inr (0x41C0, ?s)"
    by (simp add: mem_read_def ex_jsr_def init_vm_def MR_KBSR_def memory_cells_def
        UINT16_MAX_def R_PC_def R_R7_def)
  have fl: "mem_read (reg ex_jsr_long R_PC) ?l = Inr (0x4C00, ?l)"
    by (simp add: mem_read_def ex_jsr_long_def init_vm_def MR_KBSR_def memory_cells_def
        UINT16_MAX_def R_PC_def)
  have pc: "reg ?s R_PC = 0x3001" and r7: "reg ex_jsr R_R7 = 0x1234"
    by (simp_all add: ex_jsr_def init_vm_def R_PC_def R_R7_def)
  have pcl: "reg ?l R_PC = 0x3001" and target: "(0x3001 :: uint16) + 0xFC00 = 0x2C01"
    by (simp_all add: ex_jsr_long_def init_vm_def R_PC_def)
  note t = op_jsr_link_then_jump [of "0x41C0" ?s]
  from t have a: "reg (op_jsr 0x41C0 ?s) R_R7 = reg ?s R_PC" by (rule conjunct1)
  from t reg_form base have c: "reg (op_jsr 0x41C0 ?s) R_PC = reg ?s R_PC" by metis
  from t op f have d: "step ex_jsr = Inr (op_jsr 0x41C0 ?s)" by blast
  note u = op_jsr_link_then_jump [of "0x4C00" ?l]
  from u have al: "reg (op_jsr 0x4C00 ?l) R_R7 = reg ?l R_PC" by (rule conjunct1)
  from u long_form have cl: "reg (op_jsr 0x4C00 ?l) R_PC = reg ?l R_PC + signed_take_bit 10 0x4C00"
    by blast
  from u opl fl have dl: "step ex_jsr_long = Inr (op_jsr 0x4C00 ?l)" by blast
  from cl have cl': "reg (op_jsr 0x4C00 ?l) R_PC = 0x2C01"
    by (simp only: pcl off target)
  from a c d r7 al cl' dl show ?thesis by (simp only: pc pcl simp_thms)
qed

subsection \<open>LDI\<close>

text \<open>What LDI does when both of its reads stay inside the array.\<close>

lemma op_ldi_result:
  assumes "mem_read (reg s R_PC + sign_extend (instr AND 0x1FF) 9) s = Inr (address, s1)"
    and "mem_read address s1 = Inr (v, s2)"
  shows "op_ldi instr s =
           Inr (update_flags (unat (drop_bit 9 instr AND 0x7))
                  (s2\<lparr>reg := (reg s2)(unat (drop_bit 9 instr AND 0x7) := v)\<rparr>))"
  using assms by (simp add: op_ldi_def Let_def)

text \<open>
  With the keyboard status register as the intermediate address the first read polls the
  keyboard, and the status it has just stored, 0 or \<open>0x8000\<close>, is the pointer of the second
  read.
\<close>

lemma op_ldi_through_kbsr:
  assumes "reg s R_PC + sign_extend (instr AND 0x1FF) 9 = MR_KBSR"
  shows "\<exists>s'. op_ldi instr s = Inr s'
           \<and> reg s' (unat (drop_bit 9 instr AND 0x7))
               = memory s (if check_key s then 0x8000 else 0)
           \<and> memory s' (unat MR_KBSR) = (if check_key s then 0x8000 else 0)"
proof (cases "check_key s")
  case False
  let ?s1 = "s\<lparr>memory := (memory s)(unat MR_KBSR := 0)\<rparr>"
  have r1: "mem_read (reg s R_PC + sign_extend (instr AND 0x1FF) 9) s = Inr (0, ?s1)"
    using assms False by (simp add: mem_read_kbsr_idle)
  have r2: "mem_read 0 ?s1 = Inr (memory s 0, ?s1)"
    by (simp add: mem_read_def MR_KBSR_def memory_cells_def UINT16_MAX_def)
  show ?thesis
    using False reg_field_neq(1) [of "drop_bit 9 instr"]
    by (simp add: op_ldi_result [OF r1 r2] update_flags_other update_flags_frame)
next
  case True
  from mem_read_kbsr_ready [OF True] obtain c s1
    where g: "getchar (s\<lparr>memory := (memory s)(unat MR_KBSR := 0x8000)\<rparr>) = Some (c, s1)"
      and r: "mem_read MR_KBSR s
                = Inr (0x8000, s1\<lparr>memory := (memory s)(unat MR_KBSR := 0x8000,
                                                          unat MR_KBDR := word_of_int c)\<rparr>)"
    by blast
  let ?s1 = "s1\<lparr>memory := (memory s)(unat MR_KBSR := 0x8000, unat MR_KBDR := word_of_int c)\<rparr>"
  have r1: "mem_read (reg s R_PC + sign_extend (instr AND 0x1FF) 9) s = Inr (0x8000, ?s1)"
    using assms r by simp
  have r2: "mem_read 0x8000 ?s1 = Inr (memory s 0x8000, ?s1)"
    by (simp add: mem_read_def MR_KBSR_def MR_KBDR_def memory_cells_def UINT16_MAX_def)
  have d: "unat MR_KBSR \<noteq> unat MR_KBDR" by (simp add: MR_KBSR_def MR_KBDR_def)
  show ?thesis
    using True d reg_field_neq(1) [of "drop_bit 9 instr"]
    by (simp add: op_ldi_result [OF r1 r2] update_flags_other update_flags_frame)
qed

text \<open>
  C8: the specification lets LDI load \<open>mem[mem[PC + signext(PCoffset9, 9)]]\<close> from every
  machine state. When the pointer read by the first access is \<open>0xFFFF\<close>, the second access
  is \<open>memory[0xFFFF]\<close>, one past the end of the array, and nothing is loaded: LDI R0, #0 at
  \<open>0x3000\<close> with \<open>0xFFFF\<close> in the next cell.
\<close>

theorem op_ldi_pointer_to_last_address:
  "step ex_ldi = Inl OutOfBounds
   \<and> op_ldi 0xA000 (ex_ldi\<lparr>reg := (reg ex_ldi)(R_PC := 0x3001)\<rparr>) = Inl OutOfBounds
   \<and> mem_read 0x3001 (ex_ldi\<lparr>reg := (reg ex_ldi)(R_PC := 0x3001)\<rparr>)
       = Inr (0xFFFF, ex_ldi\<lparr>reg := (reg ex_ldi)(R_PC := 0x3001)\<rparr>)"
proof -
  let ?s = "ex_ldi\<lparr>reg := (reg ex_ldi)(R_PC := 0x3001)\<rparr>"
  have r1: "mem_read 0x3001 ?s = Inr (0xFFFF, ?s)"
    by (simp add: mem_read_def ex_ldi_def init_vm_def MR_KBSR_def memory_cells_def UINT16_MAX_def)
  have r2: "mem_read 0xFFFF ?s = Inl OutOfBounds"
    by (simp add: mem_read_def MR_KBSR_def memory_cells_def UINT16_MAX_def)
  have pc: "reg ?s R_PC = 0x3001" by simp
  have ldi: "op_ldi 0xA000 ?s = Inl OutOfBounds"
    by (simp add: op_ldi_def Let_def sign_extend_def pc r1 r2)
  have f: "mem_read 0x3000 ?s = Inr (0xA000, ?s)"
    by (simp add: mem_read_def ex_ldi_def init_vm_def MR_KBSR_def memory_cells_def UINT16_MAX_def)
  have ex: "execute 0xA000 ?s = op_ldi 0xA000 ?s"
    by (simp add: execute_def OP_ADD_def OP_AND_def OP_NOT_def OP_BR_def OP_JMP_def OP_JSR_def
        OP_LD_def OP_LDI_def)
  have "step ex_ldi = Inl OutOfBounds"
    using f ex ldi by (simp add: step_def Let_def ex_ldi_def init_vm_def R_PC_def)
  with ldi r1 show ?thesis by simp
qed

subsection \<open>TRAP with an unknown vector\<close>

text \<open>
  C9: a TRAP whose vector is none of \<open>0x20\<close> to \<open>0x25\<close> falls to the \<open>default\<close> of the
  switch in \<open>op_trap\<close> and changes nothing: registers, memory, running flag, keyboard and
  screen are as before. A whole turn of the loop on such an instruction only increments PC.
\<close>

theorem unknown_trap_is_noop:
  assumes "instr AND 0xFF \<notin> {TRAP_GETC, TRAP_OUT, TRAP_PUTS, TRAP_IN, TRAP_PUTSP, TRAP_HALT}"
  shows "op_trap instr s = Inr s
     \<and> (\<forall>s0 s2. unat (drop_bit 12 instr) = OP_TRAP
             \<and> mem_read (reg s0 R_PC) (s0\<lparr>reg := (reg s0)(R_PC := reg s0 R_PC + 1)\<rparr>)
                 = Inr (instr, s2)
         \<longrightarrow> step s0 = Inr (s0\<lparr>reg := (reg s0)(R_PC := reg s0 R_PC + 1)\<rparr>))"
proof -
  have noop: "op_trap instr s = Inr s" for s
    using assms by (simp add: op_trap_def Let_def)
  have "step s0 = Inr (s0\<lparr>reg := (reg s0)(R_PC := reg s0 R_PC + 1)\<rparr>)"
    if op: "unat (drop_bit 12 instr) = OP_TRAP"
      and f: "mem_read (reg s0 R_PC) (s0\<lparr>reg := (reg s0)(R_PC := reg s0 R_PC + 1)\<rparr>)
                = Inr (instr, s2)"
    for s0 s2
  proof -
    have "s2 = s0\<lparr>reg := (reg s0)(R_PC := reg s0 R_PC + 1)\<rparr>"
      using fetch_opcode_not_device [OF f] op by (simp add: OP_TRAP_def)
    moreover have "execute instr s2 = op_trap instr s2"
      using op
      by (simp add: execute_def Let_def OP_TRAP_def OP_ADD_def OP_AND_def OP_NOT_def OP_BR_def
          OP_JMP_def OP_JSR_def OP_LD_def OP_LDI_def OP_LDR_def OP_LEA_def OP_ST_def OP_STI_def
          OP_STR_def)
    ultimately show ?thesis using f noop by (simp add: step_def Let_def)
  qed
  with noop show ?thesis by blast
qed

theorem unknown_trap_is_noop_witness:
  "(0xF0FF :: uint16) AND 0xFF \<notin> {TRAP_GETC, TRAP_OUT, TRAP_PUTS, TRAP_IN, TRAP_PUTSP, TRAP_HALT}
   \<and> op_trap 0xF0FF ex_trap = Inr ex_trap
   \<and> step ex_trap = Inr (ex_trap\<lparr>reg := (reg ex_trap)(R_PC := reg ex_trap R_PC + 1)\<rparr>)"
proof -
  let ?s = "ex_trap\<lparr>reg := (reg ex_trap)(R_PC := reg ex_trap R_PC + 1)\<rparr>"
  have v: "(0xF0FF :: uint16) AND 0xFF
             \<notin> {TRAP_GETC, TRAP_OUT, TRAP_PUTS, TRAP_IN, TRAP_PUTSP, TRAP_HALT}"
    by (simp add: TRAP_GETC_def TRAP_OUT_def TRAP_PUTS_def TRAP_IN_def TRAP_PUTSP_def
        TRAP_HALT_def)
  have op: "unat (drop_bit 12 (0xF0FF :: uint16)) = OP_TRAP"
    by (simp add: OP_TRAP_def)
  have f: "mem_read (reg ex_trap R_PC) ?s = Inr (0xF0FF, ?s)"
    by (simp add: mem_read_def ex_trap_def init_vm_def MR_KBSR_def memory_cells_def
        UINT16_MAX_def R_PC_def)
  from unknown_trap_is_noop [OF v, of ex_trap] v op f show ?thesis by blast
qed

subsection \<open>PUTS and PUTSP\<close>

text \<open>Both routines only append to the screen.\<close>

lemma puts_loop_frame:
  "puts_loop ptr_c s = Inr s' \<Longrightarrow> s' = s\<lparr>stdout := stdout s'\<rparr>"
proof (induction ptr_c s arbitrary: s' rule: puts_loop.induct)
  case (1 ptr_c s)
  show ?case
  proof (cases "memory_cells \<le> ptr_c")
    case True
    with "1.prems" show ?thesis by (simp add: puts_loop.simps [of ptr_c s])
  next
    case False
    show ?thesis
    proof (cases "memory s ptr_c = 0")
      case True
      with False "1.prems" show ?thesis by (simp add: puts_loop.simps [of ptr_c s])
    next
      case nz: False
      with False "1.prems"
      have "puts_loop (ptr_c + 1) (putc (ucast (memory s ptr_c)) s) = Inr s'"
        by (simp add: puts_loop.simps [of ptr_c s])
      from "1.IH" [OF False nz this]
      have "s' = (putc (ucast (memory s ptr_c)) s)\<lparr>stdout := stdout s'\<rparr>" .
      then show ?thesis by (simp add: putc_def)
    qed
  qed
qed

lemma putsp_loop_frame:
  "putsp_loop ptr_c s = Inr s' \<Longrightarrow> s' = s\<lparr>stdout := stdout s'\<rparr>"
proof (induction ptr_c s arbitrary: s' rule: putsp_loop.induct)
  case (1 ptr_c s)
  show ?case
  proof (cases "memory_cells \<le> ptr_c")
    case True
    with "1.prems" show ?thesis by (simp add: putsp_loop.simps [of ptr_c s])
  next
    case False
    show ?thesis
    proof (cases "memory s ptr_c = 0")
      case True
      with False "1.prems" show ?thesis by (simp add: putsp_loop.simps [of ptr_c s])
    next
      case nz: False
      define ch1 :: byte where "ch1 = ucast (memory s ptr_c AND 0xFF)"
      define s1 where "s1 = putc ch1 s"
      define ch2 :: byte where "ch2 = ucast (drop_bit 8 (memory s ptr_c))"
      define s2 where "s2 = (if ch2 \<noteq> 0 then putc ch2 s1 else s1)"
      have "putsp_loop (ptr_c + 1) s2 = Inr s'"
        unfolding s2_def s1_def ch2_def ch1_def using False nz "1.prems"
        by (simp add: putsp_loop.simps [of ptr_c s] Let_def split del: if_split)
      from "1.IH" [OF False nz ch1_def s1_def ch2_def s2_def this]
      have "s' = s2\<lparr>stdout := stdout s'\<rparr>" .
      then show ?thesis by (simp add: s2_def s1_def putc_def split: if_splits)
    qed
  qed
qed

lemma puts_loop_next:
  "ptr_c < memory_cells \<Longrightarrow> memory s ptr_c \<noteq> 0 \<Longrightarrow>
   puts_loop ptr_c s = puts_loop (ptr_c + 1) (putc (ucast (memory s ptr_c)) s)"
  by (simp add: puts_loop.simps [of ptr_c s])

lemma puts_loop_stop:
  "ptr_c < memory_cells \<Longrightarrow> memory s ptr_c = 0 \<Longrightarrow> puts_loop ptr_c s = Inr s"
  by (simp add: puts_loop.simps [of ptr_c s])

lemma puts_loop_off_end:
  "memory_cells \<le> ptr_c \<Longrightarrow> puts_loop ptr_c s = Inl OutOfBounds"
  by (simp add: puts_loop.simps [of ptr_c s])

lemma putsp_loop_next:
  "ptr_c < memory_cells \<Longrightarrow> memory s ptr_c \<noteq> 0 \<Longrightarrow>
   putsp_loop ptr_c s =
     putsp_loop (ptr_c + 1)
       (if (ucast (drop_bit 8 (memory s ptr_c)) :: byte) \<noteq> 0
        then putc (ucast (drop_bit 8 (memory s ptr_c))) (putc (ucast (memory s ptr_c AND 0xFF)) s)
        else putc (ucast (memory s ptr_c AND 0xFF)) s)"
  by (simp add: putsp_loop.simps [of ptr_c s] Let_def)

lemma putsp_loop_stop:
  "ptr_c < memory_cells \<Longrightarrow> memory s ptr_c = 0 \<Longrightarrow> putsp_loop ptr_c s = Inr s"
  by (simp add: putsp_loop.simps [of ptr_c s])

lemma putsp_loop_off_end:
  "memory_cells \<le> ptr_c \<Longrightarrow> putsp_loop ptr_c s = Inl OutOfBounds"
  by (simp add: putsp_loop.simps [of ptr_c s])

text \<open>
  C10: PUTS and PUTSP read the string through a pointer into \<open>memory\<close>, not through
  \<open>mem_read\<close>. Whenever they return, memory (the KBSR and KBDR cells included) and the
  pending keyboard input are what they were, also when the string runs over the addresses of
  KBSR and KBDR; registers and the running flag are untouched as well.
\<close>

theorem puts_bypasses_keyboard:
  assumes "trap_puts s = Inr s' \<or> trap_putsp s = Inr s'"
  shows "memory s' = memory s \<and> stdin_fd s' = stdin_fd s \<and> stdin_buf s' = stdin_buf s
         \<and> stdin_eof s' = stdin_eof s \<and> reg s' = reg s \<and> running s' = running s"
proof -
  have "s' = s\<lparr>stdout := stdout s'\<rparr>"
    using assms puts_loop_frame putsp_loop_frame by (auto simp: trap_puts_def trap_putsp_def)
  then have "memory s' = memory (s\<lparr>stdout := stdout s'\<rparr>)"
    and "stdin_fd s' = stdin_fd (s\<lparr>stdout := stdout s'\<rparr>)"
    and "stdin_buf s' = stdin_buf (s\<lparr>stdout := stdout s'\<rparr>)"
    and "stdin_eof s' = stdin_eof (s\<lparr>stdout := stdout s'\<rparr>)"
    and "reg s' = reg (s\<lparr>stdout := stdout s'\<rparr>)"
    and "running s' = running (s\<lparr>stdout := stdout s'\<rparr>)"
    by simp_all
  then show ?thesis by simp
qed

theorem puts_bypasses_keyboard_witness:
  "trap_puts ex_puts = Inr (ex_puts\<lparr>stdout := [0x41, 0x42, 0x43, 0x44]\<rparr>)
   \<and> memory (ex_puts\<lparr>stdout := [0x41, 0x42, 0x43, 0x44]\<rparr>) (unat MR_KBSR) = 0x42
   \<and> memory (ex_puts\<lparr>stdout := [0x41, 0x42, 0x43, 0x44]\<rparr>) (unat MR_KBDR) = 0x44
   \<and> stdin_fd (ex_puts\<lparr>stdout := [0x41, 0x42, 0x43, 0x44]\<rparr>) = [0x58]
   \<and> stdin_buf (ex_puts\<lparr>stdout := [0x41, 0x42, 0x43, 0x44]\<rparr>) = [0x59]"
proof -
  have r: "trap_puts ex_puts = Inr (ex_puts\<lparr>stdout := [0x41, 0x42, 0x43, 0x44]\<rparr>)"
    by (simp add: trap_puts_def ex_puts_def init_vm_def puts_loop_next puts_loop_stop putc_def
        R_R0_def memory_cells_def UINT16_MAX_def)
  have m: "memory ex_puts (unat MR_KBSR) = 0x42" "memory ex_puts (unat MR_KBDR) = 0x44"
    and k: "stdin_fd ex_puts = [0x58]" "stdin_buf ex_puts = [0x59]"
    by (simp_all add: ex_puts_def init_vm_def MR_KBSR_def MR_KBDR_def)
  from puts_bypasses_keyboard [of ex_puts "ex_puts\<lparr>stdout := [0x41, 0x42, 0x43, 0x44]\<rparr>"] r
  have "memory (ex_puts\<lparr>stdout := [0x41, 0x42, 0x43, 0x44]\<rparr>) = memory ex_puts"
    and "stdin_fd (ex_puts\<lparr>stdout := [0x41, 0x42, 0x43, 0x44]\<rparr>) = stdin_fd ex_puts"
    and "stdin_buf (ex_puts\<lparr>stdout := [0x41, 0x42, 0x43, 0x44]\<rparr>) = stdin_buf ex_puts"
    by blast+
  with r m k show ?thesis by (simp only: simp_thms)
qed

subsection \<open>The image loader\<close>

lemma swap16_host_word:
  "swap16 (host_word b0 b1) = push_bit 8 (ucast b0) OR ucast b1"
  unfolding swap16_def host_word_def
  by (rule bit_word_eqI) (auto simp: bit_simps dest: bit_imp_le_length)

lemma fread_words_step:
  "fread_words p (Suc n) (b0 # b1 # bs) m =
     (Suc (fst (fread_words (Suc p) n bs (m(p := host_word b0 b1)))),
      snd (fread_words (Suc p) n bs (m(p := host_word b0 b1))))"
  by (simp add: case_prod_beta)

lemma fread_words_count:
  "fst (fread_words p n bs m) = min n (length bs div 2)"
proof (induction p n bs m rule: fread_words.induct)
  case (4 p n b0 b1 bs m)
  have "fst (fread_words p (Suc n) (b0 # b1 # bs) m)
          = Suc (fst (fread_words (Suc p) n bs (m(p := host_word b0 b1))))"
    by (simp only: fread_words_step fst_conv)
  also have "\<dots> = Suc (min n (length bs div 2))"
    by (simp only: "4.IH")
  finally show ?case by simp
qed simp_all

lemma fread_words_below:
  "i < p \<Longrightarrow> snd (fread_words p n bs m) i = m i"
proof (induction p n bs m rule: fread_words.induct)
  case (4 p n b0 b1 bs m)
  have "snd (fread_words p (Suc n) (b0 # b1 # bs) m) i
          = snd (fread_words (Suc p) n bs (m(p := host_word b0 b1))) i"
    by (simp only: fread_words_step snd_conv)
  also have "\<dots> = (m(p := host_word b0 b1)) i"
    by (rule "4.IH") (use "4.prems" in simp)
  also have "\<dots> = m i" using "4.prems" by simp
  finally show ?case .
qed simp_all

lemma fread_words_cell:
  "i < min n (length bs div 2) \<Longrightarrow>
   snd (fread_words p n bs m) (p + i) = host_word (bs ! (2 * i)) (bs ! (2 * i + 1))"
proof (induction p n bs m arbitrary: i rule: fread_words.induct)
  case (4 p n b0 b1 bs m)
  have unfold: "snd (fread_words p (Suc n) (b0 # b1 # bs) m) (p + i)
          = snd (fread_words (Suc p) n bs (m(p := host_word b0 b1))) (p + i)"
    by (simp only: fread_words_step snd_conv)
  show ?case
  proof (cases i)
    case 0
    have "snd (fread_words (Suc p) n bs (m(p := host_word b0 b1))) p
            = (m(p := host_word b0 b1)) p"
      by (rule fread_words_below) simp
    with unfold 0 show ?thesis by simp
  next
    case (Suc j)
    with "4.prems" have "j < min n (length bs div 2)" by simp
    then have "snd (fread_words (Suc p) n bs (m(p := host_word b0 b1))) (Suc p + j)
                 = host_word (bs ! (2 * j)) (bs ! (2 * j + 1))"
      by (rule "4.IH")
    with unfold Suc show ?thesis by simp
  qed
qed simp_all

lemma fread_words_above:
  "p + min n (length bs div 2) < i \<Longrightarrow> snd (fread_words p n bs m) i = m i"
proof (induction p n bs m arbitrary: i rule: fread_words.induct)
  case (4 p n b0 b1 bs m)
  have "snd (fread_words p (Suc n) (b0 # b1 # bs) m) i
          = snd (fread_words (Suc p) n bs (m(p := host_word b0 b1))) i"
    by (simp only: fread_words_step snd_conv)
  also have "\<dots> = (m(p := host_word b0 b1)) i"
    by (rule "4.IH") (use "4.prems" in simp)
  also have "\<dots> = m i" using "4.prems" by simp
  finally show ?case .
qed simp_all

lemma fread_words_partial:
  "\<not> (length bs div 2 < n \<and> odd (length bs)) \<Longrightarrow>
   snd (fread_words p n bs m) (p + min n (length bs div 2)) = m (p + min n (length bs div 2))"
proof (induction p n bs m rule: fread_words.induct)
  case (4 p n b0 b1 bs m)
  have "snd (fread_words p (Suc n) (b0 # b1 # bs) m) (p + min (Suc n) (length (b0 # b1 # bs) div 2))
          = snd (fread_words (Suc p) n bs (m(p := host_word b0 b1))) (Suc p + min n (length bs div 2))"
    by (simp only: fread_words_step snd_conv) simp
  also have "\<dots> = (m(p := host_word b0 b1)) (Suc p + min n (length bs div 2))"
    by (rule "4.IH") (use "4.prems" in simp)
  also have "\<dots> = m (p + min (Suc n) (length (b0 # b1 # bs) div 2))" by simp
  finally show ?case .
qed simp_all

lemma swap_loop_cell:
  "swap_loop p k m i = (if p \<le> i \<and> i < p + k then swap16 (m i) else m i)"
proof (induction p k m rule: swap_loop.induct)
  case (2 p k m)
  have "swap_loop p (Suc k) m i = swap_loop (Suc p) k (m(p := swap16 (m p))) i"
    by simp
  also have "\<dots> = (if Suc p \<le> i \<and> i < Suc p + k
                    then swap16 ((m(p := swap16 (m p))) i) else (m(p := swap16 (m p))) i)"
    by (rule "2.IH")
  also have "\<dots> = (if p \<le> i \<and> i < p + Suc k then swap16 (m i) else m i)"
    by (cases "i = p") auto
  finally show ?case .
qed auto

lemma read_image_file_result:
  "read_image_file (b0 # b1 # rest) s =
     Inr (s\<lparr>memory :=
            swap_loop (unat (swap16 (host_word b0 b1)))
              (min (UINT16_MAX - unat (swap16 (host_word b0 b1))) (length rest div 2))
              (snd (fread_words (unat (swap16 (host_word b0 b1)))
                     (UINT16_MAX - unat (swap16 (host_word b0 b1))) rest (memory s)))\<rparr>)"
  using fread_words_count
    [of "unat (swap16 (host_word b0 b1))" "UINT16_MAX - unat (swap16 (host_word b0 b1))" rest "memory s"]
  by (simp add: read_image_file_def Let_def case_prod_beta)

lemma read_image_file_short:
  "length file < 2 \<Longrightarrow> read_image_file file s = Inr s"
  by (cases "file"; cases "tl file") (auto simp: read_image_file_def)

text \<open>What the loader leaves in memory.\<close>

lemma read_image_file_loads:
  fixes b0 b1 :: byte and rest :: "byte list"
  defines "origin \<equiv> unat (push_bit 8 (ucast b0) OR ucast b1 :: uint16)"
  defines "n \<equiv> min (UINT16_MAX - origin) (length rest div 2)"
  assumes "read_image_file (b0 # b1 # rest) s = Inr s'"
  shows "\<forall>i<n. memory s' (origin + i)
            = push_bit 8 (ucast (rest ! (2 * i))) OR ucast (rest ! (2 * i + 1))"
    and "\<forall>i. i < origin \<longrightarrow> memory s' i = memory s i"
    and "\<forall>i. origin + n < i \<longrightarrow> memory s' i = memory s i"
    and "\<forall>i. memory_cells \<le> i \<longrightarrow> memory s' i = memory s i"
    and "origin + n \<le> memory_cells"
proof -
  have o: "unat (swap16 (host_word b0 b1)) = origin"
    by (simp add: origin_def swap16_host_word)
  have s': "s' = s\<lparr>memory := swap_loop origin n
                    (snd (fread_words origin (UINT16_MAX - origin) rest (memory s)))\<rparr>"
    using assms(3) unfolding read_image_file_result o n_def by simp
  have lt: "origin < 65536"
    using unsigned_less [of "push_bit 8 (ucast b0) OR ucast b1 :: uint16", where ?'a = nat]
    by (simp add: origin_def)
  show "\<forall>i<n. memory s' (origin + i)
            = push_bit 8 (ucast (rest ! (2 * i))) OR ucast (rest ! (2 * i + 1))"
  proof (intro allI impI)
    fix i assume "i < n"
    then have "i < min (UINT16_MAX - origin) (length rest div 2)" by (simp add: n_def)
    from fread_words_cell [OF this, of origin "memory s"] \<open>i < n\<close>
    show "memory s' (origin + i)
            = push_bit 8 (ucast (rest ! (2 * i))) OR ucast (rest ! (2 * i + 1))"
      by (simp add: s' swap_loop_cell swap16_host_word)
  qed
  show "\<forall>i. i < origin \<longrightarrow> memory s' i = memory s i"
    by (simp add: s' swap_loop_cell fread_words_below)
  show "\<forall>i. origin + n < i \<longrightarrow> memory s' i = memory s i"
    using fread_words_above [of origin "UINT16_MAX - origin" rest _ "memory s"]
    by (simp add: s' swap_loop_cell n_def)
  show le: "origin + n \<le> memory_cells"
    using lt by (simp add: n_def memory_cells_def UINT16_MAX_def)
  show "\<forall>i. memory_cells \<le> i \<longrightarrow> memory s' i = memory s i"
  proof (intro allI impI)
    fix i assume i: "memory_cells \<le> i"
    show "memory s' i = memory s i"
    proof (cases "origin + n < i")
      case True
      then show ?thesis
        using fread_words_above [of origin "UINT16_MAX - origin" rest i "memory s"]
        by (simp add: s' swap_loop_cell n_def)
    next
      case False
      with i le have eq: "i = origin + n" "n = UINT16_MAX - origin"
        using lt by (simp_all add: n_def memory_cells_def UINT16_MAX_def)
      have "\<not> (length rest div 2 < UINT16_MAX - origin \<and> odd (length rest))"
        using eq(2) unfolding n_def by linarith
      from fread_words_partial [OF this, of origin "memory s"] eq show ?thesis
        by (simp add: s' swap_loop_cell n_def)
    qed
  qed
qed

text \<open>
  C4: the specification has the loader fill memory up to and including address \<open>0xFFFF\<close>
  when the file is too long. The loader reads at most \<open>UINT16_MAX - origin\<close> words, so the
  last cell it can write is \<open>0xFFFE\<close>. With origin \<open>0xFFFE\<close> only the first word is loaded,
  whether the file holds two words or three, and with origin \<open>0xFFFF\<close> nothing is loaded.
\<close>

theorem image_truncated_before_last_address:
  "read_image_file [0xFF, 0xFE, 0x12, 0x34, 0x56, 0x78] init_vm
     = Inr (init_vm\<lparr>memory := (memory init_vm)(0xFFFE := 0x1234)\<rparr>)
   \<and> read_image_file [0xFF, 0xFE, 0x12, 0x34, 0x56, 0x78, 0x9A, 0xBC] init_vm
     = Inr (init_vm\<lparr>memory := (memory init_vm)(0xFFFE := 0x1234)\<rparr>)
   \<and> read_image_file [0xFF, 0xFF, 0x12, 0x34] init_vm = Inr init_vm"
proof -
  have o: "swap16 (host_word 0xFF 0xFE) = 0xFFFE" and w: "swap16 (host_word 0x12 0x34) = 0x1234"
    and o': "swap16 (host_word 0xFF 0xFF) = 0xFFFF"
    by (simp_all add: swap16_def host_word_def)
  have "read_image_file [0xFF, 0xFE, 0x12, 0x34, 0x56, 0x78] init_vm
          = Inr (init_vm\<lparr>memory := (memory init_vm)(0xFFFE := 0x1234)\<rparr>)"
    by (simp add: read_image_file_def o UINT16_MAX_def init_vm_def w)
  moreover have "read_image_file [0xFF, 0xFE, 0x12, 0x34, 0x56, 0x78, 0x9A, 0xBC] init_vm
          = Inr (init_vm\<lparr>memory := (memory init_vm)(0xFFFE := 0x1234)\<rparr>)"
    by (simp add: read_image_file_def o UINT16_MAX_def init_vm_def w)
  moreover have "read_image_file [0xFF, 0xFF, 0x12, 0x34] init_vm = Inr init_vm"
    by (simp add: read_image_file_def o' UINT16_MAX_def init_vm_def)
  ultimately show ?thesis by simp
qed

subsection \<open>A complete run\<close>

text \<open>
  The model on a whole program: the image of LEA R0, #2; PUTS; HALT and the string "hello"
  loads to \<open>0x3000\<close>, and three turns of the loop print the string and the halt message
  and clear the running flag.
\<close>

lemma fread_words_pos:
  "0 < n \<Longrightarrow> fread_words p n (b0 # b1 # bs) m =
     (Suc (fst (fread_words (Suc p) (n - 1) bs (m(p := host_word b0 b1)))),
      snd (fread_words (Suc p) (n - 1) bs (m(p := host_word b0 b1))))"
  by (cases n) (simp_all add: case_prod_beta)

lemma fread_words_eof: "fread_words p n [] m = (0, m)"
  by (cases n) simp_all

lemma run_pos:
  "0 < n \<Longrightarrow> run n s =
     (if running s
      then (case step s of Inl e \<Rightarrow> Some (Inl e) | Inr s' \<Rightarrow> run (n - 1) s')
      else Some (Inr s))"
  by (cases n) (auto split: sum.split)

lemma hello_words:
  "swap16 (host_word 0x30 0x00) = 0x3000" "swap16 (host_word 0xE0 0x02) = 0xE002"
  "swap16 (host_word 0xF0 0x22) = 0xF022" "swap16 (host_word 0xF0 0x25) = 0xF025"
  "swap16 (host_word 0 0x68) = 0x68" "swap16 (host_word 0 0x65) = 0x65"
  "swap16 (host_word 0 0x6C) = 0x6C" "swap16 (host_word 0 0x6F) = 0x6F"
  "swap16 (host_word 0 0) = 0"
  by (simp_all add: swap16_def host_word_def)

lemma hello_load: "main_start hello_image init_vm = Inr hello_loaded"
  by (simp add: main_start_def hello_image_def read_image_file_def hello_words UINT16_MAX_def
      fread_words_pos fread_words_eof init_vm_def hello_loaded_def PC_START_def)

lemma hello_run:
  "map_option (map_sum id (\<lambda>s'. (stdout s', running s'))) (run 3 hello_loaded)
     = Some (Inr ([0x68, 0x65, 0x6C, 0x6C, 0x6F, 0x48, 0x41, 0x54, 0x4C, 0x0A], False))"
  by (simp add: run_pos step_def Let_def hello_loaded_def init_vm_def mem_read_def execute_def
      op_lea_def op_trap_def trap_puts_def trap_halt_def putc_def put_string_def
      puts_loop_next puts_loop_stop opcodes R_R0_def R_PC_def R_COND_def
      TRAP_GETC_def TRAP_OUT_def TRAP_PUTS_def TRAP_IN_def TRAP_PUTSP_def TRAP_HALT_def
      FL_POS_def FL_ZRO_def FL_NEG_def MR_KBSR_def memory_cells_def UINT16_MAX_def
      sign_extend_def update_flags_def)

end
